theory Spec2Isabelle
  imports Main "HOL-Library.Signed_Division"
begin

section \<open>Block updates of a distributed matrix (GTMatrix\_Update.c)\<close>

text \<open>
  A shallow embedding of the four functions of \<^verbatim>\<open>GTMatrix_Update.c\<close> that route a
  rectangular write to the processes owning it and that manage the batch-update epoch.

  C's \<^verbatim>\<open>int\<close> has 32 bits. A value of that type is a HOL \<^typ>\<open>int\<close> from \<open>- 2^31\<close> to
  \<open>2^31 - 1\<close>, and the sums, differences and products that the code computes in
  \<^verbatim>\<open>int\<close> from the arguments of a call and the fields of the handle are reduced to
  that range by \<open>wrap\<close>, as the two's complement machine reduces them: the end
  coordinates and the number of cells in the sanity checks, the displacement in the
  window, the rank of a block, the extents of a sub-block and the offset into the source
  buffer. Four expressions are written without \<open>wrap\<close>:

    \<^item> the increment of a loop counter, which the loop test holds below a block count,
      a group size or a block index, and the index \<open>i + 1\<close> formed from such a
      counter: they cannot leave the range;

    \<^item> the bound \<open>comm_size + my_rank\<close> of the loop of line 239, which leaves the
      range only in a group of more than \<open>2^30\<close> processes;

    \<^item> the index of line 59 into the tables of cached descriptors, which is checked
      against the size of the tables (see \<open>sb_index\<close>).

  The other undefined or aborting behaviours are results of the model: a read outside
  an array, a division by zero, the use of a variable that no loop iteration assigned,
  and the failing \<^verbatim>\<open>assert\<close>.

  The calls into MPI are recorded, in program order, in a list of events; the
  window, the communicator and the element datatype are the same in every call and are
  left out of the events. A source buffer is the address it starts at.
\<close>

subsection \<open>Data\<close>

datatype error = OutOfBounds | DivByZero | Uninitialized | AssertFailed

text \<open>The values of C's \<^verbatim>\<open>int\<close>, and the result of 32-bit arithmetic.\<close>

definition is_int :: "int \<Rightarrow> bool" where
  "is_int x \<longleftrightarrow> - 2147483648 \<le> x \<and> x \<le> 2147483647"

definition wrap :: "int \<Rightarrow> int" where
  "wrap x = (x + 2147483648) mod 4294967296 - 2147483648"

definition bindE :: "error + 'a \<Rightarrow> ('a \<Rightarrow> error + 'b) \<Rightarrow> error + 'b" where
  "bindE m f = (case m of Inl e \<Rightarrow> Inl e | Inr x \<Rightarrow> f x)"

datatype MPI_Op = MPI_SUM | MPI_REPLACE

text \<open>
  \<^verbatim>\<open>access_mode\<close> is an \<^verbatim>\<open>int\<close> compared with two distinct constants of
  \<^verbatim>\<open>GTMatrix_Typedef.h\<close>; every other value is \<open>OTHER_ACCESS\<close>.
\<close>

datatype access_mode = BLOCKING_ACCESS | BATCH_ACCESS | OTHER_ACCESS

text \<open>
  A transfer descriptor is an entry of one of the two cached tables \<^verbatim>\<open>sb_stride\<close> and
  \<^verbatim>\<open>sb_nostride\<close> of the handle, or the result of
  \<^verbatim>\<open>MPI_Type_vector(count, blocklength, stride, gt_mat->datatype, _)\<close>.
\<close>

datatype MPI_Datatype = sb_stride int | sb_nostride int | type_vector int int int

datatype event =
    MPI_Win_lock int
  | MPI_Win_unlock int
  | MPI_Type_vector int int int
  | MPI_Type_commit MPI_Datatype
  | MPI_Accumulate int MPI_Datatype int int MPI_Datatype MPI_Op
  | MPI_Type_free MPI_Datatype

text \<open>
  \<open>MPI_Accumulate src dt_src rank pos dt_dst op\<close> stands for
  \<^verbatim>\<open>MPI_Accumulate(src, 1, dt_src, rank, pos, 1, dt_dst, op, gt_mat->mpi_win)\<close>.
\<close>

text \<open>
  Modelled from the spec: the request vector \<^verbatim>\<open>GTM_Req_Vector_t\<close>, whose declaration
  and whose functions \<^verbatim>\<open>GTM_pushToReqVector\<close> and \<^verbatim>\<open>GTM_resetReqVector\<close> are not
  part of \<^verbatim>\<open>GTMatrix_Update.c\<close>. The spec has it as an ordered sequence of request entries
  that supports reset (truncate to empty) and append. Entry \<open>i\<close> of the list holds
  \<^verbatim>\<open>ops[i]\<close>, \<^verbatim>\<open>row_starts[i]\<close>, ... of the C structure, and \<^verbatim>\<open>curr_size\<close> is the
  length of the list.
\<close>

record req =
  req_op :: MPI_Op
  req_row_start :: int
  req_row_num :: int
  req_col_start :: int
  req_col_num :: int
  req_src_buf :: int
  req_src_buf_ld :: int

type_synonym GTM_Req_Vector = "req list"

definition curr_size :: "GTM_Req_Vector \<Rightarrow> int" where
  "curr_size rv = int (length rv)"

text \<open>Modelled from the spec: \<^verbatim>\<open>GTM_pushToReqVector\<close>, append one request entry.\<close>

definition GTM_pushToReqVector ::
  "GTM_Req_Vector \<Rightarrow> MPI_Op \<Rightarrow> int \<Rightarrow> int \<Rightarrow> int \<Rightarrow> int \<Rightarrow> int \<Rightarrow> int \<Rightarrow> GTM_Req_Vector" where
  "GTM_pushToReqVector rv op row_start row_num col_start col_num src_buf src_buf_ld =
     rv @ [\<lparr>req_op = op, req_row_start = row_start, req_row_num = row_num,
            req_col_start = col_start, req_col_num = col_num,
            req_src_buf = src_buf, req_src_buf_ld = src_buf_ld\<rparr>]"

text \<open>Modelled from the spec: \<^verbatim>\<open>GTM_resetReqVector\<close>, truncate to empty.\<close>

definition GTM_resetReqVector :: "GTM_Req_Vector \<Rightarrow> GTM_Req_Vector" where
  "GTM_resetReqVector rv = []"

text \<open>
  The fields of the handle that \<^verbatim>\<open>GTMatrix_Update.c\<close> reads or writes. The arrays are
  lists as long as the memory allocated for them.
\<close>

record GTMatrix =
  nrows :: int
  ncols :: int
  unit_size :: int
  comm_size :: int
  my_rank :: int
  r_blocks :: int
  c_blocks :: int
  r_displs :: "int list"
  c_displs :: "int list"
  ld_local :: int
  is_batch_updating :: int
  is_batch_getting :: int
  req_vec :: "GTM_Req_Vector list"

text \<open>Reading \<^verbatim>\<open>a[i]\<close>.\<close>

definition rd :: "'a list \<Rightarrow> int \<Rightarrow> error + 'a" where
  "rd a i = (if 0 \<le> i \<and> i < int (length a) then Inr (a ! nat i) else Inl OutOfBounds)"

text \<open>
  Taking \<^verbatim>\<open>&gt_mat->sb_stride[id]\<close> or \<^verbatim>\<open>&gt_mat->sb_nostride[id]\<close>: both tables hold one
  descriptor for each shape up to \<^verbatim>\<open>MPI_DT_SB_DIM_MAX\<close> rows and columns. The macro is
  defined outside \<^verbatim>\<open>GTMatrix_Update.c\<close> and is the parameter \<open>dmax\<close> of the model.
  The index \<open>(row_num - 1) * dmax + (col_num - 1)\<close> of line 59 is taken exactly and
  checked against \<open>dmax * dmax\<close>, the number of entries of a table. For extents from 1
  to \<open>dmax\<close>, the only ones of a valid call in that branch, it is inside the table, and
  it is the 32-bit value of the expression when \<open>dmax * dmax\<close> is a value of \<^verbatim>\<open>int\<close>
  (lemma \<open>block_dt_id_exact\<close>). A call with a negative extent can reach line 59 too:
  \<open>OutOfBounds\<close> then stands for a read outside the table and for an overflow of the
  expression alike.
\<close>

definition sb_index :: "int \<Rightarrow> int \<Rightarrow> error + int" where
  "sb_index dmax block_dt_id =
     (if 0 \<le> block_dt_id \<and> block_dt_id < dmax * dmax then Inr block_dt_id else Inl OutOfBounds)"

subsection \<open>GTM\_updateBlockToProcess\<close>

text \<open>
  Lines 25 to 88. The local \<^verbatim>\<open>src_ptr\<close> of line 49 is the source buffer. The products
  \<^verbatim>\<open>row_bytes\<close> and \<^verbatim>\<open>src_ptr_ld\<close> of lines 50 and 54 are never read and are left
  out.
\<close>

definition GTM_updateBlockToProcess ::
  "int \<Rightarrow> GTMatrix \<Rightarrow> int \<Rightarrow> MPI_Op \<Rightarrow> int \<Rightarrow> int \<Rightarrow> int \<Rightarrow> int \<Rightarrow> int \<Rightarrow> int \<Rightarrow> error + event list" where
  "GTM_updateBlockToProcess dmax g dst_rank op row_start row_num col_start col_num src_buf src_buf_ld =
    (let row_end = wrap (row_start + row_num);
         col_end = wrap (col_start + col_num)
     in if c_blocks g = 0 then Inl DivByZero else
     let dst_rowblk = dst_rank sdiv c_blocks g;
         dst_colblk = dst_rank smod c_blocks g;
         dst_blk_ld = ld_local g
     in
     bindE (rd (r_displs g) dst_rowblk) (\<lambda>dst_row_start.
     bindE (rd (c_displs g) dst_colblk) (\<lambda>dst_col_start.
     bindE (rd (r_displs g) (wrap (dst_rowblk + 1))) (\<lambda>dst_row_end.
     bindE (rd (c_displs g) (wrap (dst_colblk + 1))) (\<lambda>dst_col_end.
     if row_start < dst_row_start \<or> col_start < dst_col_start \<or>
        row_end > dst_row_end \<or> col_end > dst_col_end \<or> wrap (row_num * col_num) = 0
     then Inr []
     else
       let dst_pos = wrap (wrap (wrap (row_start - dst_row_start) * dst_blk_ld)
                             + wrap (col_start - dst_col_start))
       in
       if row_num \<le> dmax \<and> col_num \<le> dmax then
         bindE (sb_index dmax ((row_num - 1) * dmax + (col_num - 1))) (\<lambda>block_dt_id.
           let dst_dt = sb_stride block_dt_id in
           if col_num = src_buf_ld then
             Inr [MPI_Accumulate src_buf (sb_nostride block_dt_id) dst_rank dst_pos dst_dt op]
           else if ld_local g = src_buf_ld then
             Inr [MPI_Accumulate src_buf dst_dt dst_rank dst_pos dst_dt op]
           else
             let rcv_dt = type_vector row_num col_num src_buf_ld in
             Inr [MPI_Type_vector row_num col_num src_buf_ld,
                  MPI_Type_commit rcv_dt,
                  MPI_Accumulate src_buf rcv_dt dst_rank dst_pos dst_dt op,
                  MPI_Type_free rcv_dt])
       else
         let dst_dt = type_vector row_num col_num dst_blk_ld;
             rcv_dt = type_vector row_num col_num src_buf_ld
         in Inr [MPI_Type_vector row_num col_num dst_blk_ld,
                 MPI_Type_vector row_num col_num src_buf_ld,
                 MPI_Type_commit dst_dt,
                 MPI_Type_commit rcv_dt,
                 MPI_Accumulate src_buf rcv_dt dst_rank dst_pos dst_dt op,
                 MPI_Type_free dst_dt,
                 MPI_Type_free rcv_dt])))))"

subsection \<open>GTM\_updateBlock\<close>

text \<open>
  Modelled from the spec: \<^verbatim>\<open>getRectIntersection\<close> of \<^verbatim>\<open>utils.h\<close>, which is not
  part of \<^verbatim>\<open>GTMatrix_Update.c\<close>. The spec has it compute the exact intersection of the owner's
  region with the requested rectangle; the caller passes both rectangles with inclusive
  ends and reads a flag (1 when the intersection is not empty) and the four inclusive
  ends of the intersection.
\<close>

definition getRectIntersection ::
  "int \<Rightarrow> int \<Rightarrow> int \<Rightarrow> int \<Rightarrow> int \<Rightarrow> int \<Rightarrow> int \<Rightarrow> int \<Rightarrow> int \<times> int \<times> int \<times> int \<times> int" where
  "getRectIntersection xs0 xe0 ys0 ye0 xs1 xe1 ys1 ye1 =
     (let ixs = max xs0 xs1; ixe = min xe0 xe1;
          iys = max ys0 ys1; iye = min ye0 ye1
      in (if ixs \<le> ixe \<and> iys \<le> iye then 1 else 0, ixs, ixe, iys, iye))"

text \<open>
  The test \<^verbatim>\<open>displs[i] <= x && x < displs[i+1]\<close>, which reads \<^verbatim>\<open>displs[i+1]\<close> only when
  its first half holds.
\<close>

definition in_blk :: "int list \<Rightarrow> int \<Rightarrow> int \<Rightarrow> error + bool" where
  "in_blk displs i x =
     bindE (rd displs i) (\<lambda>lo.
       if lo \<le> x then bindE (rd displs (i + 1)) (\<lambda>hi. Inr (x < hi)) else Inr False)"

text \<open>
  One iteration of the loops of lines 119 to 132; a block index that no iteration has
  assigned is \<open>None\<close>.
\<close>

definition find_blk_step ::
  "int list \<Rightarrow> int \<Rightarrow> int \<Rightarrow> int \<Rightarrow> int option \<times> int option \<Rightarrow> error + int option \<times> int option" where
  "find_blk_step displs x_start x_end i se =
     bindE (in_blk displs i x_start) (\<lambda>b1.
     bindE (in_blk displs i x_end) (\<lambda>b2.
       Inr (if b1 then Some i else fst se, if b2 then Some i else snd se)))"

function find_blk ::
  "int list \<Rightarrow> int \<Rightarrow> int \<Rightarrow> int \<Rightarrow> int \<Rightarrow> int option \<times> int option \<Rightarrow> error + int option \<times> int option" where
  "find_blk displs n_blocks x_start x_end i se =
     (if i < n_blocks then
        (case find_blk_step displs x_start x_end i se of
           Inl e \<Rightarrow> Inl e
         | Inr se' \<Rightarrow> find_blk displs n_blocks x_start x_end (i + 1) se')
      else Inr se)"
  by pat_completeness auto
termination
  by (relation "measure (\<lambda>(displs, n_blocks, x_start, x_end, i, se). nat (n_blocks - i))") auto

text \<open>The body of the inner loop, lines 142 to 175, on the handle and the events so far.\<close>

definition updateBlock_body ::
  "int \<Rightarrow> MPI_Op \<Rightarrow> int \<Rightarrow> int \<Rightarrow> int \<Rightarrow> int \<Rightarrow> int \<Rightarrow> int \<Rightarrow> access_mode \<Rightarrow>
   int \<Rightarrow> int \<Rightarrow> int \<Rightarrow> int \<Rightarrow> GTMatrix \<times> event list \<Rightarrow> error + GTMatrix \<times> event list" where
  "updateBlock_body dmax op row_start row_end col_start col_end src_buf src_buf_ld access_mode
     blk_r dst_r_s dst_r_e blk_c st =
    (let g = fst st; t = snd st in
     bindE (rd (c_displs g) blk_c) (\<lambda>dst_c_s.
     bindE (rd (c_displs g) (blk_c + 1)) (\<lambda>hi.
       let dst_c_e = wrap (hi - 1);
           dst_rank = wrap (wrap (blk_r * c_blocks g) + blk_c)
       in
       case getRectIntersection dst_r_s dst_r_e dst_c_s dst_c_e
              row_start row_end col_start col_end of
         (need_to_fetch, blk_r_s, blk_r_e, blk_c_s, blk_c_e) \<Rightarrow>
       if need_to_fetch \<noteq> 1 then Inl AssertFailed else
       let blk_r_num = wrap (wrap (blk_r_e - blk_r_s) + 1);
           blk_c_num = wrap (wrap (blk_c_e - blk_c_s) + 1);
           row_dist = wrap (blk_r_s - row_start);
           col_dist = wrap (blk_c_s - col_start);
           blk_ptr = src_buf
                       + wrap (wrap (wrap (row_dist * src_buf_ld) + col_dist) * unit_size g)
       in
       bindE (if access_mode = BLOCKING_ACCESS then
                bindE (GTM_updateBlockToProcess dmax g dst_rank op blk_r_s blk_r_num
                         blk_c_s blk_c_num blk_ptr src_buf_ld) (\<lambda>u.
                  Inr (t @ [MPI_Win_lock dst_rank] @ u @ [MPI_Win_unlock dst_rank]))
              else Inr t) (\<lambda>t'.
       if access_mode = BATCH_ACCESS then
         bindE (rd (req_vec g) dst_rank) (\<lambda>rv.
           Inr (g\<lparr>req_vec := (req_vec g)[nat dst_rank :=
                      GTM_pushToReqVector rv op blk_r_s blk_r_num
                        blk_c_s blk_c_num blk_ptr src_buf_ld]\<rparr>, t'))
       else Inr (g, t')))))"

function updateBlock_cols ::
  "int \<Rightarrow> MPI_Op \<Rightarrow> int \<Rightarrow> int \<Rightarrow> int \<Rightarrow> int \<Rightarrow> int \<Rightarrow> int \<Rightarrow> access_mode \<Rightarrow>
   int \<Rightarrow> int \<Rightarrow> int \<Rightarrow> int \<Rightarrow> int \<Rightarrow> GTMatrix \<times> event list \<Rightarrow> error + GTMatrix \<times> event list" where
  "updateBlock_cols dmax op row_start row_end col_start col_end src_buf src_buf_ld access_mode
     blk_r dst_r_s dst_r_e e_blk_c blk_c st =
    (if blk_c \<le> e_blk_c then
       (case updateBlock_body dmax op row_start row_end col_start col_end src_buf src_buf_ld
               access_mode blk_r dst_r_s dst_r_e blk_c st of
          Inl e \<Rightarrow> Inl e
        | Inr st' \<Rightarrow>
            updateBlock_cols dmax op row_start row_end col_start col_end src_buf src_buf_ld
              access_mode blk_r dst_r_s dst_r_e e_blk_c (blk_c + 1) st')
     else Inr st)"
  by pat_completeness auto
termination
  by (relation "measure (\<lambda>(dmax, op, row_start, row_end, col_start, col_end, src_buf,
        src_buf_ld, access_mode, blk_r, dst_r_s, dst_r_e, e_blk_c, blk_c, st).
        nat (e_blk_c + 1 - blk_c))") auto

text \<open>
  The body of the outer loop, lines 138 to 176. The inner loop starts by reading
  \<^verbatim>\<open>s_blk_c\<close> and \<^verbatim>\<open>e_blk_c\<close>.
\<close>

definition updateBlock_row ::
  "int \<Rightarrow> MPI_Op \<Rightarrow> int \<Rightarrow> int \<Rightarrow> int \<Rightarrow> int \<Rightarrow> int \<Rightarrow> int \<Rightarrow> access_mode \<Rightarrow>
   int option \<times> int option \<Rightarrow> int \<Rightarrow> GTMatrix \<times> event list \<Rightarrow> error + GTMatrix \<times> event list" where
  "updateBlock_row dmax op row_start row_end col_start col_end src_buf src_buf_ld access_mode
     blk_c_range blk_r st =
    bindE (rd (r_displs (fst st)) blk_r) (\<lambda>dst_r_s.
    bindE (rd (r_displs (fst st)) (blk_r + 1)) (\<lambda>hi.
      let dst_r_e = wrap (hi - 1) in
      case blk_c_range of
        (Some s_blk_c, Some e_blk_c) \<Rightarrow>
          updateBlock_cols dmax op row_start row_end col_start col_end src_buf src_buf_ld
            access_mode blk_r dst_r_s dst_r_e e_blk_c s_blk_c st
      | _ \<Rightarrow> Inl Uninitialized))"

function updateBlock_rows ::
  "int \<Rightarrow> MPI_Op \<Rightarrow> int \<Rightarrow> int \<Rightarrow> int \<Rightarrow> int \<Rightarrow> int \<Rightarrow> int \<Rightarrow> access_mode \<Rightarrow>
   int option \<times> int option \<Rightarrow> int \<Rightarrow> int \<Rightarrow> GTMatrix \<times> event list \<Rightarrow> error + GTMatrix \<times> event list" where
  "updateBlock_rows dmax op row_start row_end col_start col_end src_buf src_buf_ld access_mode
     blk_c_range e_blk_r blk_r st =
    (if blk_r \<le> e_blk_r then
       (case updateBlock_row dmax op row_start row_end col_start col_end src_buf src_buf_ld
               access_mode blk_c_range blk_r st of
          Inl e \<Rightarrow> Inl e
        | Inr st' \<Rightarrow>
            updateBlock_rows dmax op row_start row_end col_start col_end src_buf src_buf_ld
              access_mode blk_c_range e_blk_r (blk_r + 1) st')
     else Inr st)"
  by pat_completeness auto
termination
  by (relation "measure (\<lambda>(dmax, op, row_start, row_end, col_start, col_end, src_buf,
        src_buf_ld, access_mode, blk_c_range, e_blk_r, blk_r, st).
        nat (e_blk_r + 1 - blk_r))") auto

definition GTM_updateBlock ::
  "int \<Rightarrow> GTMatrix \<Rightarrow> MPI_Op \<Rightarrow> int \<Rightarrow> int \<Rightarrow> int \<Rightarrow> int \<Rightarrow> int \<Rightarrow> int \<Rightarrow> access_mode \<Rightarrow>
   error + GTMatrix \<times> event list" where
  "GTM_updateBlock dmax g op row_start row_num col_start col_num src_buf src_buf_ld access_mode =
    (if row_start < 0 \<or> col_start < 0 \<or>
        wrap (row_start + row_num) > nrows g \<or>
        wrap (col_start + col_num) > ncols g \<or>
        wrap (row_num * col_num) = 0
     then Inr (g, [])
     else
       let row_end = wrap (wrap (row_start + row_num) - 1);
           col_end = wrap (wrap (col_start + col_num) - 1)
       in
       bindE (find_blk (r_displs g) (r_blocks g) row_start row_end 0 (None, None)) (\<lambda>blk_r_range.
       bindE (find_blk (c_displs g) (c_blocks g) col_start col_end 0 (None, None)) (\<lambda>blk_c_range.
         case blk_r_range of
           (Some s_blk_r, Some e_blk_r) \<Rightarrow>
             updateBlock_rows dmax op row_start row_end col_start col_end src_buf src_buf_ld
               access_mode blk_c_range e_blk_r s_blk_r (g, [])
         | _ \<Rightarrow> Inl Uninitialized)))"

definition GTM_putBlock ::
  "int \<Rightarrow> GTMatrix \<Rightarrow> int \<Rightarrow> int \<Rightarrow> int \<Rightarrow> int \<Rightarrow> int \<Rightarrow> int \<Rightarrow> error + GTMatrix \<times> event list" where
  "GTM_putBlock dmax g row_start row_num col_start col_num src_buf src_buf_ld =
     GTM_updateBlock dmax g MPI_REPLACE row_start row_num col_start col_num src_buf src_buf_ld
       BLOCKING_ACCESS"

definition GTM_accumulateBlock ::
  "int \<Rightarrow> GTMatrix \<Rightarrow> int \<Rightarrow> int \<Rightarrow> int \<Rightarrow> int \<Rightarrow> int \<Rightarrow> int \<Rightarrow> error + GTMatrix \<times> event list" where
  "GTM_accumulateBlock dmax g row_start row_num col_start col_num src_buf src_buf_ld =
     GTM_updateBlock dmax g MPI_SUM row_start row_num col_start col_num src_buf src_buf_ld
       BLOCKING_ACCESS"

definition GTM_addPutBlockRequest ::
  "int \<Rightarrow> GTMatrix \<Rightarrow> int \<Rightarrow> int \<Rightarrow> int \<Rightarrow> int \<Rightarrow> int \<Rightarrow> int \<Rightarrow> error + GTMatrix \<times> event list" where
  "GTM_addPutBlockRequest dmax g row_start row_num col_start col_num src_buf src_buf_ld =
     GTM_updateBlock dmax g MPI_REPLACE row_start row_num col_start col_num src_buf src_buf_ld
       BATCH_ACCESS"

definition GTM_addAccumulateBlockRequest ::
  "int \<Rightarrow> GTMatrix \<Rightarrow> int \<Rightarrow> int \<Rightarrow> int \<Rightarrow> int \<Rightarrow> int \<Rightarrow> int \<Rightarrow> error + GTMatrix \<times> event list" where
  "GTM_addAccumulateBlockRequest dmax g row_start row_num col_start col_num src_buf src_buf_ld =
     GTM_updateBlock dmax g MPI_SUM row_start row_num col_start col_num src_buf src_buf_ld
       BATCH_ACCESS"

subsection \<open>The batch-update epoch\<close>

text \<open>\<^verbatim>\<open>GTM_resetReqVector(gt_mat->req_vec[i])\<close>.\<close>

definition reset_req_vec :: "GTMatrix \<Rightarrow> int \<Rightarrow> error + GTMatrix" where
  "reset_req_vec g i =
     bindE (rd (req_vec g) i) (\<lambda>rv.
       Inr (g\<lparr>req_vec := (req_vec g)[nat i := GTM_resetReqVector rv]\<rparr>))"

function reset_all :: "GTMatrix \<Rightarrow> int \<Rightarrow> error + GTMatrix" where
  "reset_all g i =
     (if i < comm_size g then
        (case reset_req_vec g i of
           Inl e \<Rightarrow> Inl e
         | Inr g' \<Rightarrow> reset_all g' (i + 1))
      else Inr g)"
  by pat_completeness auto
termination
proof (relation "measure (\<lambda>(g, i). nat (comm_size g - i))")
  show "wf (measure (\<lambda>(g, i). nat (comm_size g - i)))" by simp
next
  fix g :: GTMatrix and i :: int and g' :: GTMatrix
  assume "i < comm_size g" and "reset_req_vec g i = Inr g'"
  then have "comm_size g' = comm_size g"
    by (auto simp: reset_req_vec_def bindE_def rd_def split: if_splits)
  with \<open>i < comm_size g\<close>
  show "((g', i + 1), (g, i)) \<in> measure (\<lambda>(g, i). nat (comm_size g - i))"
    by simp
qed

definition GTM_startBatchUpdate :: "GTMatrix \<Rightarrow> error + GTMatrix" where
  "GTM_startBatchUpdate g =
     (if is_batch_getting g \<noteq> 0 then Inr g
      else bindE (reset_all g 0) (\<lambda>g'. Inr (g'\<lparr>is_batch_updating := 1\<rparr>)))"

text \<open>The loop of lines 247 to 260 over the entries of one request vector.\<close>

fun replay_reqs :: "int \<Rightarrow> GTMatrix \<Rightarrow> int \<Rightarrow> GTM_Req_Vector \<Rightarrow> error + event list" where
  "replay_reqs dmax g dst_rank [] = Inr []"
| "replay_reqs dmax g dst_rank (r # rv) =
     bindE (GTM_updateBlockToProcess dmax g dst_rank (req_op r)
              (req_row_start r) (req_row_num r) (req_col_start r) (req_col_num r)
              (req_src_buf r) (req_src_buf_ld r)) (\<lambda>u.
     bindE (replay_reqs dmax g dst_rank rv) (\<lambda>us. Inr (u @ us)))"

text \<open>The body of the loop of lines 239 to 265.\<close>

definition execBatchUpdate_body ::
  "int \<Rightarrow> int \<Rightarrow> GTMatrix \<times> event list \<Rightarrow> error + GTMatrix \<times> event list" where
  "execBatchUpdate_body dmax dst_rank' st =
    (let g = fst st; t = snd st in
     if comm_size g = 0 then Inl DivByZero else
     let dst_rank = dst_rank' smod comm_size g in
     bindE (rd (req_vec g) dst_rank) (\<lambda>rv.
     bindE (if curr_size rv > 0 then
              bindE (replay_reqs dmax g dst_rank rv) (\<lambda>us.
                Inr (t @ [MPI_Win_lock dst_rank] @ us @ [MPI_Win_unlock dst_rank]))
            else Inr t) (\<lambda>t'.
       Inr (g\<lparr>req_vec := (req_vec g)[nat dst_rank := GTM_resetReqVector rv]\<rparr>, t'))))"

function execBatchUpdate_loop ::
  "int \<Rightarrow> int \<Rightarrow> int \<Rightarrow> GTMatrix \<times> event list \<Rightarrow> error + GTMatrix \<times> event list" where
  "execBatchUpdate_loop dmax bound dst_rank' st =
    (if dst_rank' < bound then
       (case execBatchUpdate_body dmax dst_rank' st of
          Inl e \<Rightarrow> Inl e
        | Inr st' \<Rightarrow> execBatchUpdate_loop dmax bound (dst_rank' + 1) st')
     else Inr st)"
  by pat_completeness auto
termination
  by (relation "measure (\<lambda>(dmax, bound, dst_rank', st). nat (bound - dst_rank'))") auto

definition GTM_execBatchUpdate :: "int \<Rightarrow> GTMatrix \<Rightarrow> error + GTMatrix \<times> event list" where
  "GTM_execBatchUpdate dmax g =
     (if is_batch_updating g = 0 then Inr (g, [])
      else execBatchUpdate_loop dmax (comm_size g + my_rank g) (my_rank g) (g, []))"

definition GTM_stopBatchUpdate :: "GTMatrix \<Rightarrow> GTMatrix" where
  "GTM_stopBatchUpdate g =
     (if is_batch_updating g = 0 then g else g\<lparr>is_batch_updating := 0\<rparr>)"

subsection \<open>Well-formed handles, owned regions, valid calls\<close>

text \<open>
  What \<^verbatim>\<open>GTM_createGTMatrix\<close> is specified to establish: positive block counts, one
  process for each block, displacement tables of \<open>blocks + 1\<close> strictly increasing
  entries from 0 to the dimension, one request vector for each process. The dimensions
  and the size of the group are values of C's \<^verbatim>\<open>int\<close>, and with them the block counts,
  the displacements and the rank.
\<close>

definition wf_handle :: "GTMatrix \<Rightarrow> bool" where
  "wf_handle g \<longleftrightarrow>
     0 < r_blocks g \<and> 0 < c_blocks g \<and>
     int (length (r_displs g)) = r_blocks g + 1 \<and>
     int (length (c_displs g)) = c_blocks g + 1 \<and>
     sorted_wrt (<) (r_displs g) \<and> sorted_wrt (<) (c_displs g) \<and>
     r_displs g ! 0 = 0 \<and> r_displs g ! nat (r_blocks g) = nrows g \<and>
     c_displs g ! 0 = 0 \<and> c_displs g ! nat (c_blocks g) = ncols g \<and>
     comm_size g = r_blocks g * c_blocks g \<and>
     int (length (req_vec g)) = comm_size g \<and>
     0 \<le> my_rank g \<and> my_rank g < comm_size g \<and>
     is_int (nrows g) \<and> is_int (ncols g) \<and> is_int (comm_size g)"

text \<open>
  The region of a rank: rows \<open>region_row_start\<close> up to, not including,
  \<open>region_row_end\<close>, and columns alike.
\<close>

definition region_row_start :: "GTMatrix \<Rightarrow> int \<Rightarrow> int" where
  "region_row_start g rank = r_displs g ! nat (rank div c_blocks g)"
definition region_row_end :: "GTMatrix \<Rightarrow> int \<Rightarrow> int" where
  "region_row_end g rank = r_displs g ! nat (rank div c_blocks g + 1)"
definition region_col_start :: "GTMatrix \<Rightarrow> int \<Rightarrow> int" where
  "region_col_start g rank = c_displs g ! nat (rank mod c_blocks g)"
definition region_col_end :: "GTMatrix \<Rightarrow> int \<Rightarrow> int" where
  "region_col_end g rank = c_displs g ! nat (rank mod c_blocks g + 1)"

text \<open>
  The handle of \<^verbatim>\<open>test/test_Symmetrize.c\<close> on rank 5: a 10 by 10 matrix of doubles on a
  4 by 4 grid of processes; the widest block has 3 columns.
\<close>

definition example_handle :: GTMatrix where
  "example_handle =
     \<lparr>nrows = 10, ncols = 10, unit_size = 8, comm_size = 16, my_rank = 5,
      r_blocks = 4, c_blocks = 4,
      r_displs = [0, 1, 4, 6, 10], c_displs = [0, 2, 5, 7, 10],
      ld_local = 3, is_batch_updating = 0, is_batch_getting = 0,
      req_vec = [[], [], [], [], [], [], [], [], [], [], [], [], [], [], [], []]\<rparr>"

text \<open>
  A valid call of \<^verbatim>\<open>GTM_updateBlockToProcess\<close>: a rank of the group and a rectangle
  of positive extents inside the region of that rank.
\<close>

definition valid_call :: "GTMatrix \<Rightarrow> int \<Rightarrow> int \<Rightarrow> int \<Rightarrow> int \<Rightarrow> int \<Rightarrow> bool" where
  "valid_call g dst_rank row_start row_num col_start col_num \<longleftrightarrow>
     wf_handle g \<and> 0 \<le> dst_rank \<and> dst_rank < comm_size g \<and>
     region_row_start g dst_rank \<le> row_start \<and>
     row_start + row_num \<le> region_row_end g dst_rank \<and>
     region_col_start g dst_rank \<le> col_start \<and>
     col_start + col_num \<le> region_col_end g dst_rank \<and>
     0 < row_num \<and> 0 < col_num"

fun is_accumulate :: "event \<Rightarrow> bool" where
  "is_accumulate (MPI_Accumulate src dt_src rank pos dt_dst op) = True"
| "is_accumulate _ = False"

text \<open>
  The displacement that lines 51 and 52 compute in 32 bits, and the condition that the
  product and the sum of these lines are values of \<^verbatim>\<open>int\<close>.
\<close>

definition dst_pos_of :: "GTMatrix \<Rightarrow> int \<Rightarrow> int \<Rightarrow> int \<Rightarrow> int" where
  "dst_pos_of g dst_rank row_start col_start =
     wrap (wrap (wrap (row_start - region_row_start g dst_rank) * ld_local g)
             + wrap (col_start - region_col_start g dst_rank))"

definition dst_pos_fits :: "GTMatrix \<Rightarrow> int \<Rightarrow> int \<Rightarrow> int \<Rightarrow> bool" where
  "dst_pos_fits g dst_rank row_start col_start \<longleftrightarrow>
     is_int ((row_start - region_row_start g dst_rank) * ld_local g) \<and>
     is_int ((row_start - region_row_start g dst_rank) * ld_local g
               + (col_start - region_col_start g dst_rank))"

text \<open>
  A handle with one process that owns a matrix of 65536 by 65536 doubles: the matrix
  has \<open>2^32\<close> cells, and row 32768 starts \<open>2^31\<close> elements into the local buffer.
\<close>

definition big_handle :: GTMatrix where
  "big_handle =
     \<lparr>nrows = 65536, ncols = 65536, unit_size = 8, comm_size = 1, my_rank = 0,
      r_blocks = 1, c_blocks = 1,
      r_displs = [0, 65536], c_displs = [0, 65536],
      ld_local = 65536, is_batch_updating = 0, is_batch_getting = 0,
      req_vec = [[]]\<rparr>"

text \<open>
  Request vectors whose entries have no negative extent. An entry with a negative
  extent can pass the sanity check of \<^verbatim>\<open>GTM_updateBlockToProcess\<close>, which tests the
  product of the extents against 0 only, and then indexes the cached tables below 0.
\<close>

definition queues_ok :: "GTMatrix \<Rightarrow> bool" where
  "queues_ok g \<longleftrightarrow> list_all (list_all (\<lambda>r. 0 \<le> req_row_num r \<and> 0 \<le> req_col_num r)) (req_vec g)"

text \<open>
  The events of replaying one queued entry, of draining one destination (lines 244
  to 262), and the order in which lines 239 to 241 visit the destinations.
\<close>

definition events_of :: "error + event list \<Rightarrow> event list" where
  "events_of res = (case res of Inl e \<Rightarrow> [] | Inr t \<Rightarrow> t)"

definition replay_events :: "int \<Rightarrow> GTMatrix \<Rightarrow> int \<Rightarrow> req \<Rightarrow> event list" where
  "replay_events dmax g dst_rank r =
     events_of (GTM_updateBlockToProcess dmax g dst_rank (req_op r)
                  (req_row_start r) (req_row_num r) (req_col_start r) (req_col_num r)
                  (req_src_buf r) (req_src_buf_ld r))"

definition drain_events :: "int \<Rightarrow> GTMatrix \<Rightarrow> int \<Rightarrow> event list" where
  "drain_events dmax g dst_rank =
     (let rv = req_vec g ! nat dst_rank in
      if rv = [] then []
      else [MPI_Win_lock dst_rank] @ concat (map (replay_events dmax g dst_rank) rv)
             @ [MPI_Win_unlock dst_rank])"

definition visit_order :: "GTMatrix \<Rightarrow> int list" where
  "visit_order g = [my_rank g..comm_size g - 1] @ [0..my_rank g - 1]"

text \<open>Two handles with queued requests, in an open batch-update epoch.\<close>

definition queued_handle :: GTMatrix where
  "queued_handle =
     example_handle\<lparr>is_batch_updating := 1,
       req_vec := [[], [], [], [], [], [],
         [\<lparr>req_op = MPI_SUM, req_row_start = 1, req_row_num = 2, req_col_start = 5,
           req_col_num = 2, req_src_buf = 1000, req_src_buf_ld = 2\<rparr>],
         [], [], [], [], [], [], [], [], []]\<rparr>"

definition drained_handle :: GTMatrix where
  "drained_handle =
     example_handle\<lparr>is_batch_updating := 1,
       req_vec := [[], [], [],
         [\<lparr>req_op = MPI_REPLACE, req_row_start = 0, req_row_num = 1, req_col_start = 7,
           req_col_num = 3, req_src_buf = 2000, req_src_buf_ld = 3\<rparr>],
         [], [],
         [\<lparr>req_op = MPI_SUM, req_row_start = 1, req_row_num = 2, req_col_start = 5,
           req_col_num = 2, req_src_buf = 1000, req_src_buf_ld = 2\<rparr>,
          \<lparr>req_op = MPI_SUM, req_row_start = 3, req_row_num = 1, req_col_start = 5,
           req_col_num = 1, req_src_buf = 1040, req_src_buf_ld = 4\<rparr>],
         [], [], [], [], [], [], [], [], []]\<rparr>"

subsection \<open>The sub-blocks of a rectangle\<close>

text \<open>
  The destination rank and the request entry that lines 138 to 156 compute for the
  block \<open>(blk_r, blk_c)\<close>, and the list of them in the order of the two loops of lines
  136 to 177, over the block ranges that the loops of lines 119 to 132 find. The rank
  and the two extents are written exactly: for a block of a well-formed handle that
  meets the rectangle they are the 32-bit values of lines 144, 151 and 152 (lemma
  \<open>updateBlock_body_eq\<close>). The offset into the source buffer is the 32-bit value of
  lines 153 to 156, which need not be the exact one.
\<close>

definition sub_block ::
  "GTMatrix \<Rightarrow> MPI_Op \<Rightarrow> int \<Rightarrow> int \<Rightarrow> int \<Rightarrow> int \<Rightarrow> int \<Rightarrow> int \<Rightarrow> int \<Rightarrow> int \<Rightarrow> int \<times> req" where
  "sub_block g op row_start row_end col_start col_end src_buf src_buf_ld blk_r blk_c =
     (case getRectIntersection
             (r_displs g ! nat blk_r) (r_displs g ! nat (blk_r + 1) - 1)
             (c_displs g ! nat blk_c) (c_displs g ! nat (blk_c + 1) - 1)
             row_start row_end col_start col_end of
        (need_to_fetch, blk_r_s, blk_r_e, blk_c_s, blk_c_e) \<Rightarrow>
          (blk_r * c_blocks g + blk_c,
           \<lparr>req_op = op, req_row_start = blk_r_s, req_row_num = blk_r_e - blk_r_s + 1,
            req_col_start = blk_c_s, req_col_num = blk_c_e - blk_c_s + 1,
            req_src_buf = src_buf
               + wrap (wrap (wrap (wrap (blk_r_s - row_start) * src_buf_ld)
                               + wrap (blk_c_s - col_start)) * unit_size g),
            req_src_buf_ld = src_buf_ld\<rparr>))"

definition routed_blocks ::
  "GTMatrix \<Rightarrow> MPI_Op \<Rightarrow> int \<Rightarrow> int \<Rightarrow> int \<Rightarrow> int \<Rightarrow> int \<Rightarrow> int \<Rightarrow> (int \<times> req) list" where
  "routed_blocks g op row_start row_num col_start col_num src_buf src_buf_ld =
     (let row_end = row_start + row_num - 1;
          col_end = col_start + col_num - 1
      in case (find_blk (r_displs g) (r_blocks g) row_start row_end 0 (None, None),
               find_blk (c_displs g) (c_blocks g) col_start col_end 0 (None, None)) of
           (Inr (Some s_blk_r, Some e_blk_r), Inr (Some s_blk_c, Some e_blk_c)) \<Rightarrow>
             concat (map (\<lambda>blk_r.
               map (sub_block g op row_start row_end col_start col_end src_buf src_buf_ld blk_r)
                 [s_blk_c..e_blk_c]) [s_blk_r..e_blk_r])
         | _ \<Rightarrow> [])"

text \<open>
  What \<^verbatim>\<open>GTM_updateBlock\<close> does with one sub-block: in batch mode it appends the entry
  to the request vector of the rank, in blocking mode it issues a lock, the call of
  \<^verbatim>\<open>GTM_updateBlockToProcess\<close> and an unlock.
\<close>

definition push_req :: "GTM_Req_Vector list \<Rightarrow> int \<times> req \<Rightarrow> GTM_Req_Vector list" where
  "push_req q dr = q[nat (fst dr) := q ! nat (fst dr) @ [snd dr]]"

definition dispatch_events :: "int \<Rightarrow> GTMatrix \<Rightarrow> int \<times> req \<Rightarrow> event list" where
  "dispatch_events dmax g dr =
     [MPI_Win_lock (fst dr)] @ replay_events dmax g (fst dr) (snd dr) @ [MPI_Win_unlock (fst dr)]"

text \<open>Coordinate \<open>x\<close> lies in block \<open>i\<close> of a displacement table.\<close>

definition in_block :: "int list \<Rightarrow> int \<Rightarrow> int \<Rightarrow> bool" where
  "in_block displs i x \<longleftrightarrow> displs ! nat i \<le> x \<and> x < displs ! nat (i + 1)"

text \<open>A rectangle with positive extents inside the matrix.\<close>

definition valid_rect :: "GTMatrix \<Rightarrow> int \<Rightarrow> int \<Rightarrow> int \<Rightarrow> int \<Rightarrow> bool" where
  "valid_rect g row_start row_num col_start col_num \<longleftrightarrow>
     0 \<le> row_start \<and> 0 \<le> col_start \<and>
     row_start + row_num \<le> nrows g \<and> col_start + col_num \<le> ncols g \<and>
     0 < row_num \<and> 0 < col_num"

text \<open>The cells of a rectangle, of a request entry and of the region of a rank.\<close>

definition rect_cells :: "int \<Rightarrow> int \<Rightarrow> int \<Rightarrow> int \<Rightarrow> (int \<times> int) set" where
  "rect_cells row_start row_num col_start col_num =
     {row_start..<row_start + row_num} \<times> {col_start..<col_start + col_num}"

definition req_cells :: "req \<Rightarrow> (int \<times> int) set" where
  "req_cells r = rect_cells (req_row_start r) (req_row_num r) (req_col_start r) (req_col_num r)"

definition region_cells :: "GTMatrix \<Rightarrow> int \<Rightarrow> (int \<times> int) set" where
  "region_cells g rank =
     {region_row_start g rank..<region_row_end g rank} \<times>
     {region_col_start g rank..<region_col_end g rank}"

section \<open>Properties\<close>

subsection \<open>Basic facts\<close>

lemma bindE_Inr [simp]: "bindE (Inr x) f = f x"
  by (simp add: bindE_def)
lemma bindE_Inl [simp]: "bindE (Inl e) f = Inl e"
  by (simp add: bindE_def)

lemma rd_in: "0 \<le> i \<Longrightarrow> i < int (length a) \<Longrightarrow> rd a i = Inr (a ! nat i)"
  by (simp add: rd_def)

lemma sdiv_nonneg: "0 \<le> a \<Longrightarrow> 0 < b \<Longrightarrow> a sdiv b = a div (b::int)"
  by (simp add: signed_divide_int_def sgn_if)
lemma smod_nonneg: "0 \<le> a \<Longrightarrow> 0 < b \<Longrightarrow> a smod b = a mod (b::int)"
  by (simp add: signed_modulo_int_def sgn_if)

lemma rank_rowblk:
  assumes "0 < c" "0 < r" "0 \<le> k" "k < r * (c::int)"
  shows "0 \<le> k div c" "k div c < r" "0 \<le> k mod c" "k mod c < c"
proof -
  show "0 \<le> k div c" using assms by (simp add: pos_imp_zdiv_nonneg_iff)
  show "k div c < r"
  proof (rule ccontr)
    assume "\<not> k div c < r"
    then have "r \<le> k div c" by simp
    then have "r * c \<le> (k div c) * c" using \<open>0 < c\<close> by (simp add: mult_right_mono)
    moreover have "k = (k div c) * c + k mod c" by simp
    moreover have "0 \<le> k mod c" using \<open>0 < c\<close> by simp
    ultimately show False using assms(4) by linarith
  qed
  show "0 \<le> k mod c" "k mod c < c" using assms by simp_all
qed

declare find_blk.simps [simp del] updateBlock_cols.simps [simp del] updateBlock_rows.simps [simp del]

lemma wrap_id: "is_int x \<Longrightarrow> wrap x = x"
  by (simp add: is_int_def wrap_def)

lemma wrap_0 [simp]: "wrap 0 = 0"
  by (simp add: wrap_def)

lemma is_intI: "0 \<le> x \<Longrightarrow> x \<le> 2147483647 \<Longrightarrow> is_int x"
  by (simp add: is_int_def)

lemma wrap_nonneg: "0 \<le> x \<Longrightarrow> x \<le> 2147483647 \<Longrightarrow> wrap x = x"
  by (simp add: wrap_id is_intI)

lemma wrap_mult_nonzero: "wrap (a * b) \<noteq> 0 \<Longrightarrow> a \<noteq> 0 \<and> b \<noteq> 0"
  by auto

lemma displs_strict:
  "sorted_wrt (<) xs \<Longrightarrow> 0 \<le> i \<Longrightarrow> i < j \<Longrightarrow> j < int (length xs) \<Longrightarrow> xs ! nat i < (xs ! nat j :: int)"
  by (rule sorted_wrt_nth_less) (simp_all add: nat_less_iff nat_mono_iff)

lemma displs_mono:
  "sorted_wrt (<) xs \<Longrightarrow> 0 \<le> i \<Longrightarrow> i \<le> j \<Longrightarrow> j < int (length xs) \<Longrightarrow> xs ! nat i \<le> (xs ! nat j :: int)"
  using displs_strict [of xs i j] by (cases "i = j") simp_all

lemma wf_example: "wf_handle example_handle"
  by (simp add: wf_handle_def example_handle_def is_int_def)

lemma wf_big: "wf_handle big_handle"
  by (simp add: wf_handle_def big_handle_def is_int_def)

text \<open>On a well-formed handle the block counts and the displacements are values of \<^verbatim>\<open>int\<close>.\<close>

lemma wf_blocks_le:
  assumes "wf_handle g"
  shows "r_blocks g \<le> 2147483647" "c_blocks g \<le> 2147483647"
proof -
  from assms have r: "0 < r_blocks g" and c: "0 < c_blocks g"
    and n: "r_blocks g * c_blocks g \<le> 2147483647"
    by (simp_all add: wf_handle_def is_int_def)
  have "r_blocks g * 1 \<le> r_blocks g * c_blocks g"
    using r c by (intro mult_left_mono) simp_all
  with n show "r_blocks g \<le> 2147483647" by simp
  have "1 * c_blocks g \<le> r_blocks g * c_blocks g"
    using r c by (intro mult_right_mono) simp_all
  with n show "c_blocks g \<le> 2147483647" by simp
qed

lemma wf_r_displs_range:
  assumes "wf_handle g" "0 \<le> i" "i \<le> r_blocks g"
  shows "0 \<le> r_displs g ! nat i" "r_displs g ! nat i \<le> nrows g" "nrows g \<le> 2147483647"
proof -
  from assms(1) have l: "int (length (r_displs g)) = r_blocks g + 1"
    and s: "sorted_wrt (<) (r_displs g)"
    and e: "r_displs g ! 0 = 0" "r_displs g ! nat (r_blocks g) = nrows g"
    and n: "nrows g \<le> 2147483647"
    by (simp_all add: wf_handle_def is_int_def)
  from displs_mono [OF s, of 0 i] assms l e show "0 \<le> r_displs g ! nat i" by simp
  from displs_mono [OF s, of i "r_blocks g"] assms l e show "r_displs g ! nat i \<le> nrows g" by simp
  show "nrows g \<le> 2147483647" by (rule n)
qed

lemma wf_c_displs_range:
  assumes "wf_handle g" "0 \<le> i" "i \<le> c_blocks g"
  shows "0 \<le> c_displs g ! nat i" "c_displs g ! nat i \<le> ncols g" "ncols g \<le> 2147483647"
proof -
  from assms(1) have l: "int (length (c_displs g)) = c_blocks g + 1"
    and s: "sorted_wrt (<) (c_displs g)"
    and e: "c_displs g ! 0 = 0" "c_displs g ! nat (c_blocks g) = ncols g"
    and n: "ncols g \<le> 2147483647"
    by (simp_all add: wf_handle_def is_int_def)
  from displs_mono [OF s, of 0 i] assms l e show "0 \<le> c_displs g ! nat i" by simp
  from displs_mono [OF s, of i "c_blocks g"] assms l e show "c_displs g ! nat i \<le> ncols g" by simp
  show "ncols g \<le> 2147483647" by (rule n)
qed

lemma region_range:
  assumes "wf_handle g" "0 \<le> dst_rank" "dst_rank < comm_size g"
  shows "0 \<le> region_row_start g dst_rank" "region_row_end g dst_rank \<le> 2147483647"
    "0 \<le> region_col_start g dst_rank" "region_col_end g dst_rank \<le> 2147483647"
proof -
  from assms have c: "0 < c_blocks g" and r: "0 < r_blocks g"
    and k: "dst_rank < r_blocks g * c_blocks g"
    by (simp_all add: wf_handle_def)
  note b = rank_rowblk [OF c r \<open>0 \<le> dst_rank\<close> k]
  from wf_r_displs_range [OF assms(1), of "dst_rank div c_blocks g"] b
  show "0 \<le> region_row_start g dst_rank" by (simp add: region_row_start_def)
  from wf_r_displs_range [OF assms(1), of "dst_rank div c_blocks g + 1"] b
  show "region_row_end g dst_rank \<le> 2147483647" by (simp add: region_row_end_def)
  from wf_c_displs_range [OF assms(1), of "dst_rank mod c_blocks g"] b
  show "0 \<le> region_col_start g dst_rank" by (simp add: region_col_start_def)
  from wf_c_displs_range [OF assms(1), of "dst_rank mod c_blocks g + 1"] b
  show "region_col_end g dst_rank \<le> 2147483647" by (simp add: region_col_end_def)
qed

text \<open>The reads of lines 34 to 40 on a well-formed handle and a rank of the group.\<close>
lemma updateBlockToProcess_reads:
  assumes "wf_handle g" "0 \<le> dst_rank" "dst_rank < comm_size g"
  shows "GTM_updateBlockToProcess dmax g dst_rank op row_start row_num col_start col_num src_buf src_buf_ld =
    (if row_start < region_row_start g dst_rank \<or> col_start < region_col_start g dst_rank \<or>
        wrap (row_start + row_num) > region_row_end g dst_rank \<or>
        wrap (col_start + col_num) > region_col_end g dst_rank \<or> wrap (row_num * col_num) = 0
     then Inr []
     else
       let dst_pos = dst_pos_of g dst_rank row_start col_start
       in
       if row_num \<le> dmax \<and> col_num \<le> dmax then
         bindE (sb_index dmax ((row_num - 1) * dmax + (col_num - 1))) (\<lambda>block_dt_id.
           if col_num = src_buf_ld then
             Inr [MPI_Accumulate src_buf (sb_nostride block_dt_id) dst_rank dst_pos (sb_stride block_dt_id) op]
           else if ld_local g = src_buf_ld then
             Inr [MPI_Accumulate src_buf (sb_stride block_dt_id) dst_rank dst_pos (sb_stride block_dt_id) op]
           else
             Inr [MPI_Type_vector row_num col_num src_buf_ld,
                  MPI_Type_commit (type_vector row_num col_num src_buf_ld),
                  MPI_Accumulate src_buf (type_vector row_num col_num src_buf_ld) dst_rank dst_pos (sb_stride block_dt_id) op,
                  MPI_Type_free (type_vector row_num col_num src_buf_ld)])
       else
         Inr [MPI_Type_vector row_num col_num (ld_local g),
                 MPI_Type_vector row_num col_num src_buf_ld,
                 MPI_Type_commit (type_vector row_num col_num (ld_local g)),
                 MPI_Type_commit (type_vector row_num col_num src_buf_ld),
                 MPI_Accumulate src_buf (type_vector row_num col_num src_buf_ld) dst_rank dst_pos (type_vector row_num col_num (ld_local g)) op,
                 MPI_Type_free (type_vector row_num col_num (ld_local g)),
                 MPI_Type_free (type_vector row_num col_num src_buf_ld)])"
proof -
  from assms have c: "0 < c_blocks g" and r: "0 < r_blocks g"
    and k: "dst_rank < r_blocks g * c_blocks g"
    and lr: "int (length (r_displs g)) = r_blocks g + 1"
    and lc: "int (length (c_displs g)) = c_blocks g + 1"
    by (simp_all add: wf_handle_def)
  note b = rank_rowblk [OF c r \<open>0 \<le> dst_rank\<close> k]
  note m = wf_blocks_le [OF assms(1)]
  have sd: "dst_rank sdiv c_blocks g = dst_rank div c_blocks g"
    and sm: "dst_rank smod c_blocks g = dst_rank mod c_blocks g"
    using c \<open>0 \<le> dst_rank\<close> by (simp_all add: sdiv_nonneg smod_nonneg)
  have w1: "wrap (dst_rank div c_blocks g + 1) = dst_rank div c_blocks g + 1"
    using b m by (intro wrap_nonneg) simp_all
  have w2: "wrap (dst_rank mod c_blocks g + 1) = dst_rank mod c_blocks g + 1"
    using b m by (intro wrap_nonneg) simp_all
  have r1: "rd (r_displs g) (dst_rank div c_blocks g) = Inr (region_row_start g dst_rank)"
    using b lr by (simp add: rd_in region_row_start_def)
  have r2: "rd (r_displs g) (dst_rank div c_blocks g + 1) = Inr (region_row_end g dst_rank)"
    using b lr by (simp add: rd_in region_row_end_def)
  have r3: "rd (c_displs g) (dst_rank mod c_blocks g) = Inr (region_col_start g dst_rank)"
    using b lc by (simp add: rd_in region_col_start_def)
  have r4: "rd (c_displs g) (dst_rank mod c_blocks g + 1) = Inr (region_col_end g dst_rank)"
    using b lc by (simp add: rd_in region_col_end_def)
  show ?thesis
    unfolding GTM_updateBlockToProcess_def Let_def sd sm w1 w2 r1 r2 r3 r4 bindE_Inr dst_pos_of_def
    using c by simp
qed

lemma sb_index_in:
  assumes "0 < row_num" "row_num \<le> dmax" "0 < col_num" "col_num \<le> dmax"
  shows "sb_index dmax ((row_num - 1) * dmax + (col_num - 1)) = Inr ((row_num - 1) * dmax + (col_num - 1))"
proof -
  have "0 \<le> (row_num - 1) * dmax" using assms by simp
  moreover have "(row_num - 1) * dmax \<le> (dmax - 1) * dmax"
    using assms by (intro mult_right_mono) simp_all
  moreover have "(dmax - 1) * dmax = dmax * dmax - dmax" by (simp add: algebra_simps)
  ultimately show ?thesis using assms by (simp add: sb_index_def)
qed

text \<open>For extents from 1 to \<open>dmax\<close> the 32-bit index of line 59 is the exact one.\<close>

lemma block_dt_id_exact:
  assumes "0 < row_num" "row_num \<le> dmax" "0 < col_num" "col_num \<le> dmax"
    and "is_int (dmax * dmax)"
  shows "wrap (wrap (wrap (row_num - 1) * dmax) + wrap (col_num - 1))
           = (row_num - 1) * dmax + (col_num - 1)"
proof -
  have d: "0 < dmax" using assms by simp
  have a: "0 \<le> (row_num - 1) * dmax" using assms by simp
  have "(row_num - 1) * dmax \<le> (dmax - 1) * dmax"
    using assms by (intro mult_right_mono) simp_all
  then have b: "(row_num - 1) * dmax \<le> dmax * dmax - dmax" by (simp add: algebra_simps)
  from assms(5) have m: "dmax * dmax \<le> 2147483647" by (simp add: is_int_def)
  have "dmax * 1 \<le> dmax * dmax" using d by (intro mult_left_mono) simp_all
  with m have dm: "dmax \<le> 2147483647" by simp
  have 1: "wrap (row_num - 1) = row_num - 1"
    using assms dm by (intro wrap_nonneg) simp_all
  have 2: "wrap (col_num - 1) = col_num - 1"
    using assms dm by (intro wrap_nonneg) simp_all
  have 3: "wrap ((row_num - 1) * dmax) = (row_num - 1) * dmax"
    using a b m d by (intro wrap_nonneg) simp_all
  have 4: "wrap ((row_num - 1) * dmax + (col_num - 1)) = (row_num - 1) * dmax + (col_num - 1)"
    using a b m assms by (intro wrap_nonneg) simp_all
  show ?thesis by (simp only: 1 2 3 4)
qed

text \<open>
  In a valid call the end coordinates are values of \<^verbatim>\<open>int\<close>; when the number of cells
  is one too, the sanity check lets the call pass.
\<close>

lemma valid_call_passes:
  assumes "valid_call g dst_rank row_start row_num col_start col_num"
    and "is_int (row_num * col_num)"
  shows "\<not> (row_start < region_row_start g dst_rank \<or> col_start < region_col_start g dst_rank \<or>
        wrap (row_start + row_num) > region_row_end g dst_rank \<or>
        wrap (col_start + col_num) > region_col_end g dst_rank \<or> wrap (row_num * col_num) = 0)"
proof -
  from assms(1) have w: "wf_handle g" "0 \<le> dst_rank" "dst_rank < comm_size g"
    and pos: "0 < row_num" "0 < col_num"
    and inside: "region_row_start g dst_rank \<le> row_start"
      "row_start + row_num \<le> region_row_end g dst_rank"
      "region_col_start g dst_rank \<le> col_start"
      "col_start + col_num \<le> region_col_end g dst_rank"
    by (auto simp: valid_call_def)
  note rr = region_range [OF w]
  have "wrap (row_start + row_num) = row_start + row_num"
    using rr inside pos by (intro wrap_nonneg) simp_all
  moreover have "wrap (col_start + col_num) = col_start + col_num"
    using rr inside pos by (intro wrap_nonneg) simp_all
  moreover have "wrap (row_num * col_num) = row_num * col_num"
    using assms(2) by (rule wrap_id)
  ultimately show ?thesis using inside pos by simp
qed

lemma updateBlockToProcess_valid:
  assumes "valid_call g dst_rank row_start row_num col_start col_num"
    and "is_int (row_num * col_num)"
  shows "GTM_updateBlockToProcess dmax g dst_rank op row_start row_num col_start col_num src_buf src_buf_ld =
    Inr (let dst_pos = dst_pos_of g dst_rank row_start col_start;
             block_dt_id = (row_num - 1) * dmax + (col_num - 1)
       in
       if row_num \<le> dmax \<and> col_num \<le> dmax then
           if src_buf_ld = col_num then
             [MPI_Accumulate src_buf (sb_nostride block_dt_id) dst_rank dst_pos (sb_stride block_dt_id) op]
           else if src_buf_ld = ld_local g then
             [MPI_Accumulate src_buf (sb_stride block_dt_id) dst_rank dst_pos (sb_stride block_dt_id) op]
           else
             [MPI_Type_vector row_num col_num src_buf_ld,
                  MPI_Type_commit (type_vector row_num col_num src_buf_ld),
                  MPI_Accumulate src_buf (type_vector row_num col_num src_buf_ld) dst_rank dst_pos (sb_stride block_dt_id) op,
                  MPI_Type_free (type_vector row_num col_num src_buf_ld)]
       else
         [MPI_Type_vector row_num col_num (ld_local g),
                 MPI_Type_vector row_num col_num src_buf_ld,
                 MPI_Type_commit (type_vector row_num col_num (ld_local g)),
                 MPI_Type_commit (type_vector row_num col_num src_buf_ld),
                 MPI_Accumulate src_buf (type_vector row_num col_num src_buf_ld) dst_rank dst_pos (type_vector row_num col_num (ld_local g)) op,
                 MPI_Type_free (type_vector row_num col_num (ld_local g)),
                 MPI_Type_free (type_vector row_num col_num src_buf_ld)])"
proof -
  from assms(1) have w: "wf_handle g" "0 \<le> dst_rank" "dst_rank < comm_size g"
    and pos: "0 < row_num" "0 < col_num"
    by (auto simp: valid_call_def)
  note inside = valid_call_passes [OF assms]
  show ?thesis
    unfolding updateBlockToProcess_reads [OF w] if_not_P [OF inside] Let_def
    using pos by (auto simp: sb_index_in)
qed

lemma dst_pos_of_exact:
  assumes "valid_call g dst_rank row_start row_num col_start col_num"
    and "dst_pos_fits g dst_rank row_start col_start"
  shows "dst_pos_of g dst_rank row_start col_start =
    (row_start - region_row_start g dst_rank) * ld_local g
      + (col_start - region_col_start g dst_rank)"
proof -
  from assms(1) have w: "wf_handle g" "0 \<le> dst_rank" "dst_rank < comm_size g"
    and pos: "0 < row_num" "0 < col_num"
    and inside: "region_row_start g dst_rank \<le> row_start"
      "row_start + row_num \<le> region_row_end g dst_rank"
      "region_col_start g dst_rank \<le> col_start"
      "col_start + col_num \<le> region_col_end g dst_rank"
    by (auto simp: valid_call_def)
  note rr = region_range [OF w]
  have 1: "wrap (row_start - region_row_start g dst_rank) = row_start - region_row_start g dst_rank"
    using rr inside pos by (intro wrap_nonneg) simp_all
  have 2: "wrap (col_start - region_col_start g dst_rank) = col_start - region_col_start g dst_rank"
    using rr inside pos by (intro wrap_nonneg) simp_all
  from assms(2) have 3: "wrap ((row_start - region_row_start g dst_rank) * ld_local g)
      = (row_start - region_row_start g dst_rank) * ld_local g"
    by (intro wrap_id) (simp add: dst_pos_fits_def)
  from assms(2) have 4: "wrap ((row_start - region_row_start g dst_rank) * ld_local g
               + (col_start - region_col_start g dst_rank))
      = (row_start - region_row_start g dst_rank) * ld_local g
               + (col_start - region_col_start g dst_rank)"
    by (intro wrap_id) (simp add: dst_pos_fits_def)
  show ?thesis
    unfolding dst_pos_of_def 1 2 3 4 by (rule refl)
qed

lemma valid_example: "valid_call example_handle 5 2 2 3 2"
  by (simp add: valid_call_def wf_example)
    (simp add: example_handle_def region_row_start_def region_row_end_def
       region_col_start_def region_col_end_def)

lemma big_regions:
  "region_row_start big_handle 0 = 0" "region_row_end big_handle 0 = 65536"
  "region_col_start big_handle 0 = 0" "region_col_end big_handle 0 = 65536"
  "ld_local big_handle = 65536" "comm_size big_handle = 1"
  by (simp_all add: big_handle_def region_row_start_def region_row_end_def
       region_col_start_def region_col_end_def)

subsection \<open>Descriptor selection and destination offset\<close>

text \<open>
  Claim C3, as stated: every valid call issues exactly one remote call. It does not
  when the number of cells is no value of \<^verbatim>\<open>int\<close>: for the whole 65536 by 65536 region
  of the one process of \<open>big_handle\<close> the product of line 47 is \<open>2^32\<close>, which is 0 in
  32 bits, and the function returns without any MPI call.
\<close>

theorem updateBlockToProcess_wrapped_area:
  "valid_call big_handle 0 0 65536 0 65536 \<and>
   GTM_updateBlockToProcess 16 big_handle 0 MPI_SUM 0 65536 0 65536 1000 65536 = Inr []"
proof -
  have "valid_call big_handle 0 0 65536 0 65536"
    by (simp add: valid_call_def wf_big big_regions)
  moreover have "GTM_updateBlockToProcess 16 big_handle 0 MPI_SUM 0 65536 0 65536 1000 65536 = Inr []"
    by (simp add: updateBlockToProcess_reads [OF wf_big] big_regions wrap_def)
  ultimately show ?thesis by simp
qed

text \<open>
  Claim C3, amended. In a valid call whose number of cells \<open>row_num * col_num\<close> is a
  value of \<^verbatim>\<open>int\<close>, with both extents at most the cached-shape ceiling,
  \<^verbatim>\<open>GTM_updateBlockToProcess\<close> pairs the cached no-stride source descriptor with the
  cached strided destination descriptor when the source leading dimension equals the
  column count; else uses the cached strided destination descriptor on both sides when
  the source leading dimension equals the local leading dimension; else builds,
  commits, uses and then frees a strided source descriptor of its own. With an extent
  above the ceiling it builds and frees two strided descriptors of its own. In every
  such call exactly one \<^verbatim>\<open>MPI_Accumulate\<close> is issued.
\<close>

theorem updateBlockToProcess_descriptor_selection:
  assumes "valid_call g dst_rank row_start row_num col_start col_num"
    and "is_int (row_num * col_num)"
  shows "\<exists>t. GTM_updateBlockToProcess dmax g dst_rank op row_start row_num col_start col_num
               src_buf src_buf_ld = Inr t \<and>
             length (filter is_accumulate t) = 1 \<and>
             t = (let dst_pos = dst_pos_of g dst_rank row_start col_start;
                      block_dt_id = (row_num - 1) * dmax + (col_num - 1);
                      cached_dst = sb_stride block_dt_id;
                      cached_src = sb_nostride block_dt_id;
                      own_src = type_vector row_num col_num src_buf_ld;
                      own_dst = type_vector row_num col_num (ld_local g)
                  in
                  if row_num \<le> dmax \<and> col_num \<le> dmax then
                    if src_buf_ld = col_num then
                      [MPI_Accumulate src_buf cached_src dst_rank dst_pos cached_dst op]
                    else if src_buf_ld = ld_local g then
                      [MPI_Accumulate src_buf cached_dst dst_rank dst_pos cached_dst op]
                    else
                      [MPI_Type_vector row_num col_num src_buf_ld,
                       MPI_Type_commit own_src,
                       MPI_Accumulate src_buf own_src dst_rank dst_pos cached_dst op,
                       MPI_Type_free own_src]
                  else
                    [MPI_Type_vector row_num col_num (ld_local g),
                     MPI_Type_vector row_num col_num src_buf_ld,
                     MPI_Type_commit own_dst,
                     MPI_Type_commit own_src,
                     MPI_Accumulate src_buf own_src dst_rank dst_pos own_dst op,
                     MPI_Type_free own_dst,
                     MPI_Type_free own_src])"
  unfolding updateBlockToProcess_valid [OF assms] by (simp add: Let_def)

theorem updateBlockToProcess_descriptor_selection_witness:
  "valid_call example_handle 5 2 2 3 2 \<and> is_int (2 * 2) \<and>
   GTM_updateBlockToProcess 16 example_handle 5 MPI_SUM 2 2 3 2 1000 7 =
     Inr [MPI_Type_vector 2 2 7, MPI_Type_commit (type_vector 2 2 7),
          MPI_Accumulate 1000 (type_vector 2 2 7) 5 4 (sb_stride 17) MPI_SUM,
          MPI_Type_free (type_vector 2 2 7)]"
proof -
  have v: "valid_call example_handle 5 2 2 3 2" by (rule valid_example)
  have i: "is_int (2 * 2)" by (simp add: is_int_def)
  have e: "ld_local example_handle = 3"
    "dst_pos_of example_handle 5 2 3 = 4"
    by (simp_all add: example_handle_def dst_pos_of_def region_row_start_def
         region_col_start_def wrap_def)
  from updateBlockToProcess_descriptor_selection [OF v i, of 16 MPI_SUM 1000 7] show ?thesis
    using v i by (simp add: Let_def e)
qed

text \<open>
  Claim C7, as stated: the displacement passed to the remote write is
  \<open>(row_start - region_row_start) * ld_local + (col_start - region_col_start)\<close> in every
  valid call. The code computes it in \<^verbatim>\<open>int\<close>: for the cell at row 32768 of the local
  buffer of \<open>big_handle\<close>, whose rows hold 65536 elements, the formula gives \<open>2^31\<close>
  and the call passes \<open>- 2^31\<close>.
\<close>

theorem updateBlockToProcess_wrapped_dst_pos:
  "valid_call big_handle 0 32768 1 0 1 \<and>
   GTM_updateBlockToProcess 16 big_handle 0 MPI_REPLACE 32768 1 0 1 1000 1 =
     Inr [MPI_Accumulate 1000 (sb_nostride 0) 0 (- 2147483648) (sb_stride 0) MPI_REPLACE] \<and>
   (32768 - region_row_start big_handle 0) * ld_local big_handle
      + (0 - region_col_start big_handle 0) = 2147483648"
proof -
  have "valid_call big_handle 0 32768 1 0 1"
    by (simp add: valid_call_def wf_big big_regions)
  moreover have "GTM_updateBlockToProcess 16 big_handle 0 MPI_REPLACE 32768 1 0 1 1000 1 =
     Inr [MPI_Accumulate 1000 (sb_nostride 0) 0 (- 2147483648) (sb_stride 0) MPI_REPLACE]"
    by (simp add: updateBlockToProcess_reads [OF wf_big] big_regions wrap_def
        dst_pos_of_def sb_index_def)
  ultimately show ?thesis by (simp add: big_regions)
qed

text \<open>
  Claim C7, amended. In a valid call of \<^verbatim>\<open>GTM_updateBlockToProcess\<close> in which the
  number of cells \<open>row_num * col_num\<close>, the product
  \<open>(row_start - region_row_start) * ld_local\<close> and its sum with
  \<open>col_start - region_col_start\<close> are values of \<^verbatim>\<open>int\<close>, the one \<^verbatim>\<open>MPI_Accumulate\<close>
  issued has the target displacement
  \<open>(row_start - region_row_start) * ld_local + (col_start - region_col_start)\<close>, the
  region being that of the destination rank in the displacement tables.
\<close>

theorem updateBlockToProcess_dst_pos:
  assumes "valid_call g dst_rank row_start row_num col_start col_num"
    and "is_int (row_num * col_num)"
    and "dst_pos_fits g dst_rank row_start col_start"
  shows "\<exists>t dt_src dt_dst.
           GTM_updateBlockToProcess dmax g dst_rank op row_start row_num col_start col_num
             src_buf src_buf_ld = Inr t \<and>
           filter is_accumulate t =
             [MPI_Accumulate src_buf dt_src dst_rank
                ((row_start - region_row_start g dst_rank) * ld_local g
                   + (col_start - region_col_start g dst_rank))
                dt_dst op]"
  unfolding updateBlockToProcess_valid [OF assms(1,2)] dst_pos_of_exact [OF assms(1,3)]
  by (simp add: Let_def)

theorem updateBlockToProcess_dst_pos_witness:
  "valid_call example_handle 5 2 2 3 2 \<and> is_int (2 * 2) \<and>
   dst_pos_fits example_handle 5 2 3 \<and>
   (\<exists>t dt_src dt_dst.
      GTM_updateBlockToProcess 16 example_handle 5 MPI_REPLACE 2 2 3 2 1000 3 = Inr t \<and>
      filter is_accumulate t = [MPI_Accumulate 1000 dt_src 5 4 dt_dst MPI_REPLACE])"
proof -
  have v: "valid_call example_handle 5 2 2 3 2" by (rule valid_example)
  have i: "is_int (2 * 2)" by (simp add: is_int_def)
  have e: "ld_local example_handle = 3" "region_row_start example_handle 5 = 1"
    "region_col_start example_handle 5 = 2"
    by (simp_all add: example_handle_def region_row_start_def region_col_start_def)
  have f: "dst_pos_fits example_handle 5 2 3"
    by (simp add: dst_pos_fits_def e is_int_def)
  from updateBlockToProcess_dst_pos [OF v i f, of 16 MPI_REPLACE 1000 3] show ?thesis
    using v i f by (simp add: e)
qed

subsection \<open>Invalid ranges\<close>

text \<open>
  Claim C6, as stated: a rectangle that is partly outside the bounds is ignored. The
  two sanity checks compare the 32-bit sums \<open>row_start + row_num\<close> and
  \<open>col_start + col_num\<close>: with \<open>2^31 - 1\<close> rows the sum is negative, the check lets the
  rectangle pass, and \<^verbatim>\<open>GTM_updateBlockToProcess\<close> issues its MPI calls, while
  \<^verbatim>\<open>GTM_updateBlock\<close> finds no block for the last row and reads \<^verbatim>\<open>e_blk_r\<close>
  unassigned.
\<close>

theorem wrapped_range_not_ignored:
  "2 + 2147483647 > region_row_end example_handle 5 \<and>
   GTM_updateBlockToProcess 16 example_handle 5 MPI_SUM 2 2147483647 3 1 1000 1 =
     Inr [MPI_Type_vector 2147483647 1 3, MPI_Type_vector 2147483647 1 1,
          MPI_Type_commit (type_vector 2147483647 1 3),
          MPI_Type_commit (type_vector 2147483647 1 1),
          MPI_Accumulate 1000 (type_vector 2147483647 1 1) 5 4
            (type_vector 2147483647 1 3) MPI_SUM,
          MPI_Type_free (type_vector 2147483647 1 3),
          MPI_Type_free (type_vector 2147483647 1 1)] \<and>
   1 + 2147483647 > nrows example_handle \<and>
   GTM_updateBlock 16 example_handle MPI_SUM 1 2147483647 0 1 1000 1 BLOCKING_ACCESS =
     Inl Uninitialized"
proof -
  have e: "ld_local example_handle = 3" "region_row_start example_handle 5 = 1"
    "region_col_start example_handle 5 = 2" "region_row_end example_handle 5 = 4"
    "region_col_end example_handle 5 = 5" "comm_size example_handle = 16"
    "nrows example_handle = 10" "ncols example_handle = 10"
    "r_displs example_handle = [0, 1, 4, 6, 10]" "c_displs example_handle = [0, 2, 5, 7, 10]"
    "r_blocks example_handle = 4" "c_blocks example_handle = 4"
    by (simp_all add: example_handle_def region_row_start_def region_col_start_def
         region_row_end_def region_col_end_def)
  have 1: "GTM_updateBlockToProcess 16 example_handle 5 MPI_SUM 2 2147483647 3 1 1000 1 =
     Inr [MPI_Type_vector 2147483647 1 3, MPI_Type_vector 2147483647 1 1,
          MPI_Type_commit (type_vector 2147483647 1 3),
          MPI_Type_commit (type_vector 2147483647 1 1),
          MPI_Accumulate 1000 (type_vector 2147483647 1 1) 5 4
            (type_vector 2147483647 1 3) MPI_SUM,
          MPI_Type_free (type_vector 2147483647 1 3),
          MPI_Type_free (type_vector 2147483647 1 1)]"
    by (simp add: updateBlockToProcess_reads [OF wf_example] e wrap_def dst_pos_of_def)
  have 2: "find_blk [0, 1, 4, 6, 10] 4 1 2147483647 0 (None, None) = Inr (Some 1, None)"
    by (simp add: find_blk.simps find_blk_step_def in_blk_def rd_def)
  have 3: "find_blk [0, 2, 5, 7, 10] 4 0 0 0 (None, None) = Inr (Some 0, Some 0)"
    by (simp add: find_blk.simps find_blk_step_def in_blk_def rd_def)
  have 4: "wrap (1 + 2147483647) = - 2147483648" "wrap (- 2147483648 - 1) = 2147483647"
    "wrap (0 + 1) = 1" "wrap (1 - 1) = 0" "wrap (2147483647 * 1) = 2147483647"
    by (simp_all add: wrap_def)
  have "GTM_updateBlock 16 example_handle MPI_SUM 1 2147483647 0 1 1000 1 BLOCKING_ACCESS =
     Inl Uninitialized"
    unfolding GTM_updateBlock_def e 4 Let_def 2 3 by simp
  with 1 show ?thesis by (simp add: e)
qed

text \<open>
  Claim C6, amended. When the sums \<open>row_start + row_num\<close> and \<open>col_start + col_num\<close>
  are values of \<^verbatim>\<open>int\<close>, \<^verbatim>\<open>GTM_updateBlock\<close> on a rectangle that starts before row or
  column 0, ends after the last row or column of the matrix, or has no rows or no
  columns, returns with the handle as it was and without any MPI call or error, in every
  access mode; and \<^verbatim>\<open>GTM_updateBlockToProcess\<close>, for a rank of the group of a
  well-formed handle, returns without any MPI call or error when the rectangle is not
  inside the region of that rank or has no rows or no columns.
\<close>

theorem invalid_range_ignored:
  "(is_int (row_start + row_num) \<and> is_int (col_start + col_num) \<and>
    (row_start < 0 \<or> col_start < 0 \<or> row_start + row_num > nrows g \<or>
     col_start + col_num > ncols g \<or> row_num = 0 \<or> col_num = 0)
    \<longrightarrow> GTM_updateBlock dmax g op row_start row_num col_start col_num src_buf src_buf_ld mode
          = Inr (g, [])) \<and>
   (wf_handle g \<and> 0 \<le> dst_rank \<and> dst_rank < comm_size g \<and>
    is_int (row_start + row_num) \<and> is_int (col_start + col_num) \<and>
    (row_start < region_row_start g dst_rank \<or> col_start < region_col_start g dst_rank \<or>
     row_start + row_num > region_row_end g dst_rank \<or>
     col_start + col_num > region_col_end g dst_rank \<or> row_num = 0 \<or> col_num = 0)
    \<longrightarrow> GTM_updateBlockToProcess dmax g dst_rank op row_start row_num col_start col_num
          src_buf src_buf_ld = Inr [])"
proof (intro conjI impI)
  assume a: "is_int (row_start + row_num) \<and> is_int (col_start + col_num) \<and>
    (row_start < 0 \<or> col_start < 0 \<or> row_start + row_num > nrows g \<or>
     col_start + col_num > ncols g \<or> row_num = 0 \<or> col_num = 0)"
  then have "wrap (row_start + row_num) = row_start + row_num"
    "wrap (col_start + col_num) = col_start + col_num"
    by (simp_all add: wrap_id)
  with a show "GTM_updateBlock dmax g op row_start row_num col_start col_num src_buf src_buf_ld mode
          = Inr (g, [])"
    unfolding GTM_updateBlock_def by auto
next
  assume a: "wf_handle g \<and> 0 \<le> dst_rank \<and> dst_rank < comm_size g \<and>
    is_int (row_start + row_num) \<and> is_int (col_start + col_num) \<and>
    (row_start < region_row_start g dst_rank \<or> col_start < region_col_start g dst_rank \<or>
     row_start + row_num > region_row_end g dst_rank \<or>
     col_start + col_num > region_col_end g dst_rank \<or> row_num = 0 \<or> col_num = 0)"
  then have w: "wf_handle g" "0 \<le> dst_rank" "dst_rank < comm_size g" by simp_all
  from a have "wrap (row_start + row_num) = row_start + row_num"
    "wrap (col_start + col_num) = col_start + col_num"
    by (simp_all add: wrap_id)
  with a show "GTM_updateBlockToProcess dmax g dst_rank op row_start row_num col_start col_num
          src_buf src_buf_ld = Inr []"
    unfolding updateBlockToProcess_reads [OF w] by auto
qed

theorem invalid_range_ignored_witness:
  "(is_int (8 + 3) \<and> is_int (0 + 2) \<and> (8::int) + 3 > nrows example_handle \<and>
    GTM_updateBlock 16 example_handle MPI_SUM 8 3 0 2 1000 2 BLOCKING_ACCESS
      = Inr (example_handle, [])) \<and>
   (wf_handle example_handle \<and> is_int (3 + 2) \<and> is_int (3 + 2) \<and>
    (3::int) + 2 > region_row_end example_handle 5 \<and>
    GTM_updateBlockToProcess 16 example_handle 5 MPI_SUM 3 2 3 2 1000 2 = Inr [])"
proof -
  have h1: "(8::int) + 3 > nrows example_handle"
    by (simp add: example_handle_def)
  have h2: "(3::int) + 2 > region_row_end example_handle 5"
    by (simp add: example_handle_def region_row_end_def)
  have h3: "(0::int) \<le> 5 \<and> 5 < comm_size example_handle"
    by (simp add: example_handle_def)
  have h4: "is_int (8 + 3)" "is_int (0 + 2)" "is_int (3 + 2)"
    by (simp_all add: is_int_def)
  from invalid_range_ignored [where row_start = 8 and row_num = 3 and col_start = 0
      and col_num = 2 and g = example_handle and dmax = 16 and op = MPI_SUM
      and src_buf = 1000 and src_buf_ld = 2 and mode = BLOCKING_ACCESS]
    invalid_range_ignored [where row_start = 3 and row_num = 2 and col_start = 3
      and col_num = 2 and g = example_handle and dmax = 16 and op = MPI_SUM
      and src_buf = 1000 and src_buf_ld = 2 and dst_rank = 5]
  show ?thesis using h1 h2 h3 h4 wf_example by simp
qed

subsection \<open>Starting a batch-update epoch\<close>

declare reset_all.simps [simp del]

lemma reset_all_eq:
  assumes "0 \<le> i" "comm_size g \<le> int (length (req_vec g))"
  shows "reset_all g i =
    Inr (g\<lparr>req_vec := map (\<lambda>j. if i \<le> int j \<and> int j < comm_size g then [] else req_vec g ! j)
                          [0..<length (req_vec g)]\<rparr>)"
  using assms
proof (induction g i rule: reset_all.induct)
  case (1 g i)
  show ?case
  proof (cases "i < comm_size g")
    case True
    let ?g' = "g\<lparr>req_vec := (req_vec g)[nat i := []]\<rparr>"
    have rr: "reset_req_vec g i = Inr ?g'"
      using True "1.prems" by (simp add: reset_req_vec_def rd_in GTM_resetReqVector_def)
    have "reset_all ?g' (i + 1) =
      Inr (?g'\<lparr>req_vec := map (\<lambda>j. if i + 1 \<le> int j \<and> int j < comm_size ?g' then []
                                   else req_vec ?g' ! j) [0..<length (req_vec ?g')]\<rparr>)"
      using "1.prems" by (intro "1.IH" [OF True rr]) simp_all
    moreover have "map (\<lambda>j. if i + 1 \<le> int j \<and> int j < comm_size ?g' then []
                                   else req_vec ?g' ! j) [0..<length (req_vec ?g')]
       = map (\<lambda>j. if i \<le> int j \<and> int j < comm_size g then [] else req_vec g ! j)
                          [0..<length (req_vec g)]"
      using True "1.prems" by (auto simp: nth_list_update)
    ultimately show ?thesis
      by (subst reset_all.simps) (simp add: True rr)
  next
    case False
    then have "map (\<lambda>j. if i \<le> int j \<and> int j < comm_size g then [] else req_vec g ! j)
                          [0..<length (req_vec g)] = req_vec g"
      by (intro nth_equalityI) auto
    then show ?thesis
      by (subst reset_all.simps) (simp add: False)
  qed
qed

lemma startBatchUpdate_eq:
  assumes "is_batch_getting g = 0" "int (length (req_vec g)) = comm_size g"
  shows "GTM_startBatchUpdate g =
    Inr (g\<lparr>req_vec := replicate (length (req_vec g)) [], is_batch_updating := 1\<rparr>)"
proof -
  have "map (\<lambda>j. if 0 \<le> int j \<and> int j < comm_size g then [] else req_vec g ! j)
                          [0..<length (req_vec g)] = replicate (length (req_vec g)) []"
    using assms(2) by (intro nth_equalityI) auto
  then show ?thesis
    using assms by (simp add: GTM_startBatchUpdate_def reset_all_eq)
qed


text \<open>
  Claim C10. While a batch-get epoch is open (\<^verbatim>\<open>is_batch_getting\<close> is set),
  \<^verbatim>\<open>GTM_startBatchUpdate\<close> returns at once: no request vector is reset and
  \<^verbatim>\<open>is_batch_updating\<close> is not set.
\<close>

theorem startBatchUpdate_refused_while_getting:
  "is_batch_getting g \<noteq> 0 \<Longrightarrow> GTM_startBatchUpdate g = Inr g"
  by (simp add: GTM_startBatchUpdate_def)

theorem startBatchUpdate_refused_while_getting_witness:
  "is_batch_getting (queued_handle\<lparr>is_batch_updating := 0, is_batch_getting := 1\<rparr>) \<noteq> 0 \<and>
   GTM_startBatchUpdate (queued_handle\<lparr>is_batch_updating := 0, is_batch_getting := 1\<rparr>)
     = Inr (queued_handle\<lparr>is_batch_updating := 0, is_batch_getting := 1\<rparr>)"
  using startBatchUpdate_refused_while_getting
    [of "queued_handle\<lparr>is_batch_updating := 0, is_batch_getting := 1\<rparr>"]
  by simp

text \<open>
  Claim C4, as stated: \<^verbatim>\<open>GTM_startBatchUpdate\<close> is a no-op when the batch-update epoch
  is already open. It is not: the function tests \<^verbatim>\<open>is_batch_getting\<close>, not
  \<^verbatim>\<open>is_batch_updating\<close>, and in an open batch-update epoch it empties the request
  vectors, here the one of rank 6.
\<close>

theorem startBatchUpdate_open_not_noop:
  "is_batch_updating queued_handle = 1 \<and>
   GTM_startBatchUpdate queued_handle = Inr (example_handle\<lparr>is_batch_updating := 1\<rparr>) \<and>
   Inr (example_handle\<lparr>is_batch_updating := 1\<rparr>) \<noteq> (Inr queued_handle :: error + GTMatrix)"
proof -
  have h: "is_batch_getting queued_handle = 0"
    "int (length (req_vec queued_handle)) = comm_size queued_handle"
    by (simp_all add: queued_handle_def example_handle_def)
  have e: "queued_handle\<lparr>req_vec := replicate (length (req_vec queued_handle)) [],
             is_batch_updating := 1\<rparr> = example_handle\<lparr>is_batch_updating := 1\<rparr>"
    by (simp add: queued_handle_def example_handle_def numeral_eq_Suc)
  have "GTM_startBatchUpdate queued_handle = Inr (example_handle\<lparr>is_batch_updating := 1\<rparr>)"
    unfolding startBatchUpdate_eq [OF h] e by (rule refl)
  moreover have "is_batch_updating queued_handle = 1"
    by (simp add: queued_handle_def)
  moreover have "example_handle\<lparr>is_batch_updating := 1\<rparr> \<noteq> queued_handle"
    by (simp add: queued_handle_def example_handle_def)
  ultimately show ?thesis by simp
qed

text \<open>
  Claim C4, amended. \<^verbatim>\<open>GTM_startBatchUpdate\<close> is a no-op while a batch-get epoch is
  open. Otherwise, whether or not a batch-update epoch is already open, it resets the
  request vector of every process of the group to empty and opens the batch-update
  epoch, changing nothing else.
\<close>

theorem startBatchUpdate_effect:
  "(is_batch_getting g \<noteq> 0 \<longrightarrow> GTM_startBatchUpdate g = Inr g) \<and>
   (is_batch_getting g = 0 \<and> int (length (req_vec g)) = comm_size g \<longrightarrow>
      GTM_startBatchUpdate g =
        Inr (g\<lparr>req_vec := replicate (length (req_vec g)) [], is_batch_updating := 1\<rparr>))"
  by (simp add: startBatchUpdate_eq) (simp add: GTM_startBatchUpdate_def)

theorem startBatchUpdate_effect_witness:
  "is_batch_getting (queued_handle\<lparr>is_batch_getting := 1\<rparr>) \<noteq> 0 \<and>
   GTM_startBatchUpdate (queued_handle\<lparr>is_batch_getting := 1\<rparr>)
     = Inr (queued_handle\<lparr>is_batch_getting := 1\<rparr>) \<and>
   is_batch_getting queued_handle = 0 \<and>
   int (length (req_vec queued_handle)) = comm_size queued_handle \<and>
   GTM_startBatchUpdate queued_handle =
     Inr (example_handle\<lparr>is_batch_updating := 1\<rparr>)"
proof -
  have h: "is_batch_getting queued_handle = 0"
    "int (length (req_vec queued_handle)) = comm_size queued_handle"
    by (simp_all add: queued_handle_def example_handle_def)
  have e: "queued_handle\<lparr>req_vec := replicate (length (req_vec queued_handle)) [],
             is_batch_updating := 1\<rparr> = example_handle\<lparr>is_batch_updating := 1\<rparr>"
    by (simp add: queued_handle_def example_handle_def numeral_eq_Suc)
  from startBatchUpdate_effect [of "queued_handle\<lparr>is_batch_getting := 1\<rparr>"]
    startBatchUpdate_effect [of queued_handle]
  show ?thesis using h by (simp add: e)
qed

subsection \<open>Executing a batch\<close>

declare execBatchUpdate_loop.simps [simp del]

lemma updateBlockToProcess_total:
  assumes "wf_handle g" "0 \<le> dst_rank" "dst_rank < comm_size g" "0 \<le> row_num" "0 \<le> col_num"
  shows "\<exists>t. GTM_updateBlockToProcess dmax g dst_rank op row_start row_num col_start col_num
               src_buf src_buf_ld = Inr t"
proof (cases "row_num = 0 \<or> col_num = 0")
  case True
  then show ?thesis
    unfolding updateBlockToProcess_reads [OF assms(1-3)] by auto
next
  case False
  with assms have "0 < row_num" "0 < col_num" by simp_all
  then show ?thesis
    unfolding updateBlockToProcess_reads [OF assms(1-3)]
    by (auto simp: Let_def sb_index_in)
qed

lemma negative_extent_out_of_bounds:
  "GTM_updateBlockToProcess 16 example_handle 5 MPI_SUM 2 (- 1) 3 1 1000 1 = Inl OutOfBounds"
  by (simp add: GTM_updateBlockToProcess_def example_handle_def Let_def wrap_def
      signed_divide_int_def signed_modulo_int_def rd_def sb_index_def)

lemma updateBlockToProcess_req_vec [simp]:
  "GTM_updateBlockToProcess dmax (g\<lparr>req_vec := q\<rparr>) = GTM_updateBlockToProcess dmax g"
  by (intro ext) (simp add: GTM_updateBlockToProcess_def Let_def cong: if_cong)

lemma replay_events_req_vec [simp]:
  "replay_events dmax (g\<lparr>req_vec := q\<rparr>) = replay_events dmax g"
  by (intro ext) (simp add: replay_events_def)

lemma replay_reqs_eq:
  assumes "wf_handle g" "0 \<le> dst_rank" "dst_rank < comm_size g"
    "list_all (\<lambda>r. 0 \<le> req_row_num r \<and> 0 \<le> req_col_num r) rv"
  shows "replay_reqs dmax g dst_rank rv = Inr (concat (map (replay_events dmax g dst_rank) rv))"
  using assms(4)
proof (induction rv)
  case Nil
  show ?case by simp
next
  case (Cons r rv)
  then have "0 \<le> req_row_num r" "0 \<le> req_col_num r" by simp_all
  from updateBlockToProcess_total [OF assms(1-3) this]
  obtain u where u: "GTM_updateBlockToProcess dmax g dst_rank (req_op r)
                  (req_row_start r) (req_row_num r) (req_col_start r) (req_col_num r)
                  (req_src_buf r) (req_src_buf_ld r) = Inr u"
    by blast
  with Cons show ?case
    by (simp add: replay_events_def events_of_def)
qed

lemma execBatchUpdate_body_eq:
  assumes "wf_handle g" "queues_ok g" "0 \<le> k"
  shows "execBatchUpdate_body dmax k (g, t) =
    Inr (g\<lparr>req_vec := (req_vec g)[nat (k mod comm_size g) := []]\<rparr>,
         t @ drain_events dmax g (k mod comm_size g))"
proof -
  let ?n = "comm_size g" and ?d = "k mod comm_size g"
  from assms(1) have n: "0 < ?n" "int (length (req_vec g)) = ?n"
    by (simp_all add: wf_handle_def)
  then have d: "0 \<le> ?d" "?d < ?n" by simp_all
  have sm: "k smod ?n = ?d" using n assms(3) by (simp add: smod_nonneg)
  have r: "rd (req_vec g) ?d = Inr (req_vec g ! nat ?d)"
    using d n by (simp add: rd_in)
  have "nat ?d < length (req_vec g)"
    using d n by (simp add: nat_less_iff)
  then have "req_vec g ! nat ?d \<in> set (req_vec g)"
    by (rule nth_mem)
  with assms(2) have ok: "list_all (\<lambda>r. 0 \<le> req_row_num r \<and> 0 \<le> req_col_num r) (req_vec g ! nat ?d)"
    by (simp add: queues_ok_def list_all_iff)
  note rp = replay_reqs_eq [OF assms(1) d ok, of dmax]
  show ?thesis
    using n(1) by (simp add: execBatchUpdate_body_def sm r rp curr_size_def drain_events_def
        GTM_resetReqVector_def Let_def)
qed

lemma wf_handle_req_vec:
  "length q = length (req_vec g) \<Longrightarrow> wf_handle (g\<lparr>req_vec := q\<rparr>) = wf_handle g"
  by (simp add: wf_handle_def)

lemma queues_ok_reset:
  "queues_ok g \<Longrightarrow> queues_ok (g\<lparr>req_vec := (req_vec g)[i := []]\<rparr>)"
  by (auto simp: queues_ok_def list_all_iff dest!: set_update_subset_insert [THEN subsetD])

lemma mod_distinct_window:
  assumes "k < i" "i < k + n" "0 < (n::int)"
  shows "i mod n \<noteq> k mod n"
proof
  assume "i mod n = k mod n"
  then have "n dvd (i - k)" by (simp add: mod_eq_dvd_iff)
  moreover have "0 < i - k" "i - k < n" using assms by simp_all
  ultimately show False
    by (meson zdvd_not_zless)
qed

lemma execBatchUpdate_loop_eq:
  assumes "wf_handle g" "queues_ok g" "0 \<le> k" "k \<le> bound" "bound \<le> k + comm_size g"
  shows "execBatchUpdate_loop dmax bound k (g, t) =
    Inr (g\<lparr>req_vec := map (\<lambda>j. if \<exists>i\<in>{k..<bound}. i mod comm_size g = int j then []
                               else req_vec g ! j) [0..<length (req_vec g)]\<rparr>,
         t @ concat (map (\<lambda>i. drain_events dmax g (i mod comm_size g)) [k..bound - 1]))"
  using assms
proof (induction dmax bound k "(g, t)" arbitrary: g t rule: execBatchUpdate_loop.induct)
  case (1 dmax bound k)
  let ?n = "comm_size g"
  from "1.prems"(1) have n: "0 < ?n" "int (length (req_vec g)) = ?n"
    by (simp_all add: wf_handle_def)
  show ?case
  proof (cases "k < bound")
    case False
    with "1.prems" have "bound = k" by simp
    have "map (\<lambda>j. if \<exists>i\<in>{k..<bound}. i mod ?n = int j then [] else req_vec g ! j)
            [0..<length (req_vec g)] = req_vec g"
      using \<open>bound = k\<close> by (intro nth_equalityI) auto
    then show ?thesis
      using \<open>bound = k\<close> by (subst execBatchUpdate_loop.simps) simp
  next
    case True
    let ?d = "k mod ?n"
    let ?g1 = "g\<lparr>req_vec := (req_vec g)[nat ?d := []]\<rparr>"
    let ?t1 = "t @ drain_events dmax g ?d"
    have d: "0 \<le> ?d" "?d < ?n" using n by simp_all
    have b: "execBatchUpdate_body dmax k (g, t) = Inr (?g1, ?t1)"
      using "1.prems" by (simp add: execBatchUpdate_body_eq)
    have w1: "wf_handle ?g1" using "1.prems"(1) by (simp add: wf_handle_req_vec)
    have q1: "queues_ok ?g1" using "1.prems"(2) by (rule queues_ok_reset)
    have IH: "execBatchUpdate_loop dmax bound (k + 1) (?g1, ?t1) =
      Inr (?g1\<lparr>req_vec := map (\<lambda>j. if \<exists>i\<in>{k + 1..<bound}. i mod comm_size ?g1 = int j then []
                               else req_vec ?g1 ! j) [0..<length (req_vec ?g1)]\<rparr>,
         ?t1 @ concat (map (\<lambda>i. drain_events dmax ?g1 (i mod comm_size ?g1)) [k + 1..bound - 1]))"
      using True "1.prems" by (intro "1.hyps" [OF True b w1 q1]) simp_all
    have other: "i mod ?n \<noteq> ?d" if "i \<in> {k + 1..<bound}" for i
      using that "1.prems" n(1) by (intro mod_distinct_window) auto
    have qs: "map (\<lambda>j. if \<exists>i\<in>{k + 1..<bound}. i mod comm_size ?g1 = int j then []
                               else req_vec ?g1 ! j) [0..<length (req_vec ?g1)]
        = map (\<lambda>j. if \<exists>i\<in>{k..<bound}. i mod ?n = int j then []
                               else req_vec g ! j) [0..<length (req_vec g)]"
    proof -
      have split: "{k..<bound} = insert k {k + 1..<bound}" using True by auto
      have "(if \<exists>i\<in>{k + 1..<bound}. i mod ?n = int j then []
             else (req_vec g)[nat ?d := []] ! j) =
            (if \<exists>i\<in>{k..<bound}. i mod ?n = int j then [] else req_vec g ! j)"
        if j: "j < length (req_vec g)" for j
      proof (cases "int j = ?d")
        case True
        then have "nat ?d = j" by simp
        then show ?thesis using j True unfolding split by simp
      next
        case False
        then have "nat ?d \<noteq> j" using d by auto
        then show ?thesis using False unfolding split by auto
      qed
      then show ?thesis by (intro map_cong) (simp_all split del: if_split cong: if_cong)
    qed
    have dr: "drain_events dmax ?g1 (i mod ?n) = drain_events dmax g (i mod ?n)"
      if "i \<in> {k + 1..<bound}" for i
    proof -
      have "i mod ?n \<noteq> ?d" using that by (rule other)
      moreover have "0 \<le> i mod ?n" using n by simp
      ultimately have "nat (i mod ?n) \<noteq> nat ?d" using d by (simp add: nat_eq_iff)
      then show ?thesis by (simp add: drain_events_def Let_def cong: if_cong)
    qed
    have ts: "map (\<lambda>i. drain_events dmax ?g1 (i mod comm_size ?g1)) [k + 1..bound - 1]
       = map (\<lambda>i. drain_events dmax g (i mod ?n)) [k + 1..bound - 1]"
      using dr by (intro map_cong) auto
    have up: "[k..bound - 1] = k # [k + 1..bound - 1]"
      using True by (simp add: upto_rec1)
    show ?thesis
      by (subst execBatchUpdate_loop.simps)
        (simp only: True if_True b sum.case IH qs ts up, simp)
  qed
qed


lemma visit_order_mod:
  assumes "0 \<le> m" "m < (n::int)"
  shows "map (\<lambda>i. i mod n) [m..m + n - 1] = [m..n - 1] @ [0..m - 1]"
proof (rule nth_equalityI)
  show "length (map (\<lambda>i. i mod n) [m..m + n - 1]) = length ([m..n - 1] @ [0..m - 1])"
    using assms by simp
next
  fix k assume "k < length (map (\<lambda>i. i mod n) [m..m + n - 1])"
  then have k: "int k < n" using assms by simp
  then have kl: "k < length [m..m + n - 1]" using assms by simp
  have l1: "[m..m + n - 1] ! k = m + int k" using k assms by (intro nth_upto) simp
  have lhs: "map (\<lambda>i. i mod n) [m..m + n - 1] ! k = (m + int k) mod n"
    by (simp only: nth_map [OF kl] l1)
  have len: "length [m..n - 1] = nat (n - m)" by simp
  show "map (\<lambda>i. i mod n) [m..m + n - 1] ! k = ([m..n - 1] @ [0..m - 1]) ! k"
  proof (cases "int k < n - m")
    case True
    then have "(m + int k) mod n = m + int k" using assms by simp
    moreover have kk: "k < nat (n - m)" using True by linarith
    moreover have "[m..n - 1] ! k = m + int k" using True by (intro nth_upto) simp
    ultimately show ?thesis by (simp only: lhs nth_append len if_True)
  next
    case False
    then have "(m + int k - n) mod n = m + int k - n"
      using assms k by (intro mod_pos_pos_trivial) simp_all
    moreover have "(m + int k - n) mod n = (m + int k) mod n"
      by (rule minus_mod_self2)
    ultimately have "(m + int k) mod n = m + int k - n" by simp
    moreover have kk: "k - nat (n - m) < nat m" "int (k - nat (n - m)) = int k - (n - m)"
      "\<not> k < nat (n - m)"
      using False k assms by linarith+
    moreover have "[0..m - 1] ! (k - nat (n - m)) = 0 + int (k - nat (n - m))"
      using kk k assms by (intro nth_upto) simp
    ultimately show ?thesis by (simp only: lhs nth_append len if_False)
  qed
qed

lemma all_visited:
  assumes "0 < (n::int)" "0 \<le> j" "j < n"
  shows "\<exists>i\<in>{m..<m + n}. i mod n = j"
proof
  show "(m + (j - m) mod n) mod n = j" using assms by (simp add: mod_add_right_eq)
  show "m + (j - m) mod n \<in> {m..<m + n}" using assms by simp
qed

lemma execBatchUpdate_eq:
  assumes "wf_handle g" "queues_ok g" "is_batch_updating g \<noteq> 0"
  shows "GTM_execBatchUpdate dmax g =
    Inr (g\<lparr>req_vec := replicate (length (req_vec g)) []\<rparr>,
         concat (map (drain_events dmax g) (visit_order g)))"
proof -
  let ?n = "comm_size g" and ?m = "my_rank g"
  from assms(1) have n: "0 < ?n" "int (length (req_vec g)) = ?n" "0 \<le> ?m" "?m < ?n"
    by (simp_all add: wf_handle_def)
  have "(\<exists>i\<in>{?m..<?m + ?n}. i mod ?n = int j)" if "j < length (req_vec g)" for j
    using that n by (intro all_visited) simp_all
  then have qs: "map (\<lambda>j. if \<exists>i\<in>{?m..<?m + ?n}. i mod ?n = int j then []
                               else req_vec g ! j) [0..<length (req_vec g)]
      = replicate (length (req_vec g)) []"
    by (intro nth_equalityI) simp_all
  have "map (\<lambda>i. drain_events dmax g (i mod ?n)) [?m..?m + ?n - 1]
      = map (drain_events dmax g) (map (\<lambda>i. i mod ?n) [?m..?m + ?n - 1])"
    by simp
  also have "\<dots> = map (drain_events dmax g) (visit_order g)"
    using n by (simp only: visit_order_mod visit_order_def)
  finally have ts: "map (\<lambda>i. drain_events dmax g (i mod ?n)) [?m..?m + ?n - 1]
      = map (drain_events dmax g) (visit_order g)" .
  have "execBatchUpdate_loop dmax (?n + ?m) ?m (g, []) =
    Inr (g\<lparr>req_vec := map (\<lambda>j. if \<exists>i\<in>{?m..<?n + ?m}. i mod ?n = int j then []
                               else req_vec g ! j) [0..<length (req_vec g)]\<rparr>,
         [] @ concat (map (\<lambda>i. drain_events dmax g (i mod ?n)) [?m..?n + ?m - 1]))"
    using assms n by (intro execBatchUpdate_loop_eq) simp_all
  then show ?thesis
    using assms(3) qs ts by (simp add: GTM_execBatchUpdate_def add.commute)
qed

lemma wf_drained: "wf_handle drained_handle"
  by (simp add: wf_handle_def drained_handle_def example_handle_def is_int_def)

lemma ok_drained: "queues_ok drained_handle"
  by (simp add: queues_ok_def drained_handle_def example_handle_def)




lemma drained_fields:
  "c_blocks drained_handle = 4" "ld_local drained_handle = 3"
  "r_displs drained_handle = [0, 1, 4, 6, 10]" "c_displs drained_handle = [0, 2, 5, 7, 10]"
  "comm_size drained_handle = 16" "my_rank drained_handle = 5"
  by (simp_all add: drained_handle_def example_handle_def)

lemma drained_replays:
  "replay_events 16 drained_handle 6
     \<lparr>req_op = MPI_SUM, req_row_start = 1, req_row_num = 2, req_col_start = 5,
      req_col_num = 2, req_src_buf = 1000, req_src_buf_ld = 2\<rparr>
   = [MPI_Accumulate 1000 (sb_nostride 17) 6 0 (sb_stride 17) MPI_SUM]"
  "replay_events 16 drained_handle 6
     \<lparr>req_op = MPI_SUM, req_row_start = 3, req_row_num = 1, req_col_start = 5,
       req_col_num = 1, req_src_buf = 1040, req_src_buf_ld = 4\<rparr>
   = [MPI_Type_vector 1 1 4, MPI_Type_commit (type_vector 1 1 4),
      MPI_Accumulate 1040 (type_vector 1 1 4) 6 6 (sb_stride 0) MPI_SUM,
      MPI_Type_free (type_vector 1 1 4)]"
  "replay_events 16 drained_handle 3
     \<lparr>req_op = MPI_REPLACE, req_row_start = 0, req_row_num = 1, req_col_start = 7,
       req_col_num = 3, req_src_buf = 2000, req_src_buf_ld = 3\<rparr>
   = [MPI_Accumulate 2000 (sb_nostride 2) 3 0 (sb_stride 2) MPI_REPLACE]"
  by (simp_all add: replay_events_def GTM_updateBlockToProcess_def drained_fields wrap_def
       signed_divide_int_def signed_modulo_int_def rd_def sb_index_def events_of_def Let_def)

lemma drained_trace:
  "concat (map (drain_events 16 drained_handle) (visit_order drained_handle)) =
     [MPI_Win_lock 6,
      MPI_Accumulate 1000 (sb_nostride 17) 6 0 (sb_stride 17) MPI_SUM,
      MPI_Type_vector 1 1 4, MPI_Type_commit (type_vector 1 1 4),
      MPI_Accumulate 1040 (type_vector 1 1 4) 6 6 (sb_stride 0) MPI_SUM,
      MPI_Type_free (type_vector 1 1 4),
      MPI_Win_unlock 6,
      MPI_Win_lock 3,
      MPI_Accumulate 2000 (sb_nostride 2) 3 0 (sb_stride 2) MPI_REPLACE,
      MPI_Win_unlock 3]"
proof -
  have v: "visit_order drained_handle = [5,6,7,8,9,10,11,12,13,14,15,0,1,2,3,4]"
    by (simp add: visit_order_def drained_fields upto_rec1)
  have q: "req_vec drained_handle = [[], [], [],
         [\<lparr>req_op = MPI_REPLACE, req_row_start = 0, req_row_num = 1, req_col_start = 7,
           req_col_num = 3, req_src_buf = 2000, req_src_buf_ld = 3\<rparr>],
         [], [],
         [\<lparr>req_op = MPI_SUM, req_row_start = 1, req_row_num = 2, req_col_start = 5,
           req_col_num = 2, req_src_buf = 1000, req_src_buf_ld = 2\<rparr>,
          \<lparr>req_op = MPI_SUM, req_row_start = 3, req_row_num = 1, req_col_start = 5,
           req_col_num = 1, req_src_buf = 1040, req_src_buf_ld = 4\<rparr>],
         [], [], [], [], [], [], [], [], []]"
    by (simp add: drained_handle_def)
  show ?thesis
    unfolding v by (simp add: drain_events_def q drained_replays)
qed


text \<open>
  Claim C2. \<^verbatim>\<open>GTM_execBatchUpdate\<close> does nothing when the batch-update epoch is not
  open. When it is open, it visits the destinations in the order own rank, ..., last
  rank, 0, ..., own rank - 1; for each destination with a non-empty request vector it
  issues one lock, then the events of \<^verbatim>\<open>GTM_updateBlockToProcess\<close> for each queued
  entry, once each and in the order of the vector, then one unlock; for a destination
  with an empty vector it issues nothing. Every replayed call returns.
\<close>

theorem execBatchUpdate_order:
  "(is_batch_updating g = 0 \<longrightarrow> GTM_execBatchUpdate dmax g = Inr (g, [])) \<and>
   (is_batch_updating g \<noteq> 0 \<and> wf_handle g \<and> queues_ok g \<longrightarrow>
      (\<exists>g'. GTM_execBatchUpdate dmax g =
              Inr (g', concat (map (drain_events dmax g) (visit_order g)))) \<and>
      (\<forall>d\<in>set (visit_order g). \<forall>r\<in>set (req_vec g ! nat d).
         GTM_updateBlockToProcess dmax g d (req_op r)
           (req_row_start r) (req_row_num r) (req_col_start r) (req_col_num r)
           (req_src_buf r) (req_src_buf_ld r) = Inr (replay_events dmax g d r)))"
proof (intro conjI impI ballI)
  assume "is_batch_updating g = 0"
  then show "GTM_execBatchUpdate dmax g = Inr (g, [])"
    by (simp add: GTM_execBatchUpdate_def)
next
  assume a: "is_batch_updating g \<noteq> 0 \<and> wf_handle g \<and> queues_ok g"
  then show "\<exists>g'. GTM_execBatchUpdate dmax g =
              Inr (g', concat (map (drain_events dmax g) (visit_order g)))"
    by (simp add: execBatchUpdate_eq)
next
  fix d r
  assume a: "is_batch_updating g \<noteq> 0 \<and> wf_handle g \<and> queues_ok g"
    and d: "d \<in> set (visit_order g)" and r: "r \<in> set (req_vec g ! nat d)"
  from a have w: "wf_handle g" by simp
  then have n: "int (length (req_vec g)) = comm_size g"
    by (simp add: wf_handle_def)
  from d have dr: "0 \<le> d" "d < comm_size g"
    using w by (auto simp: visit_order_def wf_handle_def)
  then have "nat d < length (req_vec g)" using n by (simp add: nat_less_iff)
  then have "req_vec g ! nat d \<in> set (req_vec g)" by (rule nth_mem)
  with a r have "0 \<le> req_row_num r" "0 \<le> req_col_num r"
    by (auto simp: queues_ok_def list_all_iff)
  from updateBlockToProcess_total [OF w dr this]
  obtain u where "GTM_updateBlockToProcess dmax g d (req_op r)
           (req_row_start r) (req_row_num r) (req_col_start r) (req_col_num r)
           (req_src_buf r) (req_src_buf_ld r) = Inr u"
    by blast
  then show "GTM_updateBlockToProcess dmax g d (req_op r)
           (req_row_start r) (req_row_num r) (req_col_start r) (req_col_num r)
           (req_src_buf r) (req_src_buf_ld r) = Inr (replay_events dmax g d r)"
    by (simp add: replay_events_def events_of_def)
qed

theorem execBatchUpdate_order_witness:
  "is_batch_updating example_handle = 0 \<and>
   GTM_execBatchUpdate 16 example_handle = Inr (example_handle, []) \<and>
   is_batch_updating drained_handle \<noteq> 0 \<and> wf_handle drained_handle \<and>
   queues_ok drained_handle \<and>
   (\<exists>g'. GTM_execBatchUpdate 16 drained_handle =
      Inr (g',
        [MPI_Win_lock 6,
         MPI_Accumulate 1000 (sb_nostride 17) 6 0 (sb_stride 17) MPI_SUM,
         MPI_Type_vector 1 1 4, MPI_Type_commit (type_vector 1 1 4),
         MPI_Accumulate 1040 (type_vector 1 1 4) 6 6 (sb_stride 0) MPI_SUM,
         MPI_Type_free (type_vector 1 1 4),
         MPI_Win_unlock 6,
         MPI_Win_lock 3,
         MPI_Accumulate 2000 (sb_nostride 2) 3 0 (sb_stride 2) MPI_REPLACE,
         MPI_Win_unlock 3]))"
proof -
  have h0: "is_batch_updating example_handle = 0"
    by (simp add: example_handle_def)
  have h1: "is_batch_updating drained_handle \<noteq> 0"
    by (simp add: drained_handle_def)
  from execBatchUpdate_order [of example_handle 16] execBatchUpdate_order [of drained_handle 16]
  show ?thesis
    using h0 h1 wf_drained ok_drained by (simp add: drained_trace)
qed

text \<open>
  Claim C9. When \<^verbatim>\<open>GTM_execBatchUpdate\<close> runs with the batch-update epoch open, it
  returns a handle in which every request vector is empty and nothing else has
  changed: \<^verbatim>\<open>is_batch_updating\<close> is as before. When the epoch is not open it changes
  nothing.
\<close>

theorem execBatchUpdate_frame:
  "(is_batch_updating g = 0 \<longrightarrow> GTM_execBatchUpdate dmax g = Inr (g, [])) \<and>
   (is_batch_updating g \<noteq> 0 \<and> wf_handle g \<and> queues_ok g \<longrightarrow>
      (\<exists>t. GTM_execBatchUpdate dmax g =
              Inr (g\<lparr>req_vec := replicate (length (req_vec g)) []\<rparr>, t)))"
  by (simp add: execBatchUpdate_eq) (simp add: GTM_execBatchUpdate_def)

theorem execBatchUpdate_frame_witness:
  "is_batch_updating example_handle = 0 \<and>
   GTM_execBatchUpdate 16 example_handle = Inr (example_handle, []) \<and>
   is_batch_updating drained_handle \<noteq> 0 \<and> wf_handle drained_handle \<and>
   queues_ok drained_handle \<and>
   (\<exists>t. GTM_execBatchUpdate 16 drained_handle =
      Inr (example_handle\<lparr>is_batch_updating := 1\<rparr>, t))"
proof -
  have h0: "is_batch_updating example_handle = 0"
    by (simp add: example_handle_def)
  have h1: "is_batch_updating drained_handle \<noteq> 0"
    by (simp add: drained_handle_def)
  have e: "drained_handle\<lparr>req_vec := replicate (length (req_vec drained_handle)) []\<rparr>
             = example_handle\<lparr>is_batch_updating := 1\<rparr>"
    by (simp add: drained_handle_def example_handle_def numeral_eq_Suc)
  from execBatchUpdate_frame [of example_handle 16] execBatchUpdate_frame [of drained_handle 16]
  show ?thesis
    using h0 h1 wf_drained ok_drained by (simp add: e)
qed

subsection \<open>Routing a rectangle\<close>


lemma in_blk_eq:
  "0 \<le> i \<Longrightarrow> i + 1 < int (length displs) \<Longrightarrow> in_blk displs i x = Inr (in_block displs i x)"
  by (simp add: in_blk_def rd_in in_block_def)

lemma find_blk_loop:
  assumes "0 \<le> i" "int (length displs) = n + 1"
  shows "\<exists>s' e'. find_blk displs n x_start x_end i (s, e) = Inr (s', e') \<and>
           (if \<exists>j\<in>{i..<n}. in_block displs j x_start
            then \<exists>j\<in>{i..<n}. s' = Some j \<and> in_block displs j x_start else s' = s) \<and>
           (if \<exists>j\<in>{i..<n}. in_block displs j x_end
            then \<exists>j\<in>{i..<n}. e' = Some j \<and> in_block displs j x_end else e' = e)"
  using assms
proof (induction displs n x_start x_end i "(s, e)" arbitrary: s e rule: find_blk.induct)
  case (1 displs n x_start x_end i)
  show ?case
  proof (cases "i < n")
    case False
    then show ?thesis by (subst find_blk.simps) simp
  next
    case True
    let ?s1 = "if in_block displs i x_start then Some i else s"
    let ?e1 = "if in_block displs i x_end then Some i else e"
    have st: "find_blk_step displs x_start x_end i (s, e) = Inr (?s1, ?e1)"
      using True "1.prems" by (simp add: find_blk_step_def in_blk_eq)
    from "1.hyps" [OF True st] "1.prems"
    obtain s' e' where
      f: "find_blk displs n x_start x_end (i + 1) (?s1, ?e1) = Inr (s', e')"
      and s': "if \<exists>j\<in>{i + 1..<n}. in_block displs j x_start
            then \<exists>j\<in>{i + 1..<n}. s' = Some j \<and> in_block displs j x_start else s' = ?s1"
      and e': "if \<exists>j\<in>{i + 1..<n}. in_block displs j x_end
            then \<exists>j\<in>{i + 1..<n}. e' = Some j \<and> in_block displs j x_end else e' = ?e1"
      by force
    have split: "{i..<n} = insert i {i + 1..<n}" using True by auto
    have "find_blk displs n x_start x_end i (s, e) = Inr (s', e')"
      by (subst find_blk.simps) (simp add: True st f)
    moreover have "if \<exists>j\<in>{i..<n}. in_block displs j x_start
            then \<exists>j\<in>{i..<n}. s' = Some j \<and> in_block displs j x_start else s' = s"
      using s' unfolding split by (auto split: if_splits)
    moreover have "if \<exists>j\<in>{i..<n}. in_block displs j x_end
            then \<exists>j\<in>{i..<n}. e' = Some j \<and> in_block displs j x_end else e' = e"
      using e' unfolding split by (auto split: if_splits)
    ultimately show ?thesis by blast
  qed
qed

lemma block_exists_nat:
  "xs ! 0 \<le> (x::int) \<Longrightarrow> x < xs ! n \<Longrightarrow> \<exists>j<n. xs ! j \<le> x \<and> x < xs ! Suc j"
proof (induction n)
  case 0
  then show ?case by simp
next
  case (Suc n)
  show ?case
  proof (cases "x < xs ! n")
    case True
    with Suc obtain j where "j < n" "xs ! j \<le> x \<and> x < xs ! Suc j" by blast
    then show ?thesis by (intro exI [of _ j]) simp
  next
    case False
    with Suc.prems show ?thesis by (intro exI [of _ n]) simp
  qed
qed

lemma block_exists:
  assumes "displs ! 0 \<le> x" "x < displs ! nat n" "0 \<le> n"
  shows "\<exists>j\<in>{0..<n}. in_block displs j x"
proof -
  from block_exists_nat [OF assms(1,2)]
  obtain j where j: "j < nat n" "displs ! j \<le> x" "x < displs ! Suc j" by blast
  have "nat (int j + 1) = Suc j" by simp
  with j have "in_block displs (int j) x" by (simp add: in_block_def)
  moreover have "int j \<in> {0..<n}" using j by simp
  ultimately show ?thesis by blast
qed

lemma find_blk_eq:
  assumes "int (length displs) = n + 1" "0 \<le> n"
    "displs ! 0 \<le> x_start" "x_start \<le> x_end" "x_end < displs ! nat n"
  shows "\<exists>s e. find_blk displs n x_start x_end 0 (None, None) = Inr (Some s, Some e) \<and>
           0 \<le> s \<and> s < n \<and> in_block displs s x_start \<and>
           0 \<le> e \<and> e < n \<and> in_block displs e x_end"
proof -
  have 1: "\<exists>j\<in>{0..<n}. in_block displs j x_start"
    using assms by (intro block_exists) simp_all
  have 2: "\<exists>j\<in>{0..<n}. in_block displs j x_end"
    using assms by (intro block_exists) simp_all
  from find_blk_loop [of 0 displs n x_start x_end None None] assms(1)
  show ?thesis unfolding if_P [OF 1] if_P [OF 2] by force
qed

lemma rank_of_block:
  assumes "0 \<le> r" "r < R" "0 \<le> c" "c < (C::int)"
  shows "0 \<le> r * C + c" "r * C + c < R * C" "(r * C + c) div C = r" "(r * C + c) mod C = c"
proof -
  show "0 \<le> r * C + c" using assms by simp
  have "r * C \<le> (R - 1) * C" using assms by (intro mult_right_mono) simp_all
  then show "r * C + c < R * C" using assms by (simp add: algebra_simps)
  show "(r * C + c) div C = r" using assms by simp
  show "(r * C + c) mod C = c" using assms by simp
qed

lemma sub_block_req_vec [simp]:
  "sub_block (g\<lparr>req_vec := q\<rparr>) = sub_block g"
  by (intro ext) (simp add: sub_block_def)

lemma dispatch_events_req_vec [simp]:
  "dispatch_events dmax (g\<lparr>req_vec := q\<rparr>) = dispatch_events dmax g"
  by (intro ext) (simp add: dispatch_events_def)

lemma updateBlock_body_eq:
  assumes w: "wf_handle g" and q: "length q = length (req_vec g)"
    and r: "0 \<le> blk_r" "blk_r < r_blocks g" and c: "0 \<le> blk_c" "blk_c < c_blocks g"
    and rows: "r_displs g ! nat blk_r \<le> row_end" "row_start < r_displs g ! nat (blk_r + 1)"
      "row_start \<le> row_end"
    and cols: "c_displs g ! nat blk_c \<le> col_end" "col_start < c_displs g ! nat (blk_c + 1)"
      "col_start \<le> col_end"
  shows "updateBlock_body dmax op row_start row_end col_start col_end src_buf src_buf_ld mode
           blk_r (r_displs g ! nat blk_r) (r_displs g ! nat (blk_r + 1) - 1) blk_c
           (g\<lparr>req_vec := q\<rparr>, t) =
     Inr (g\<lparr>req_vec :=
              (if mode = BATCH_ACCESS
               then push_req q (sub_block g op row_start row_end col_start col_end
                                  src_buf src_buf_ld blk_r blk_c)
               else q)\<rparr>,
          t @ (if mode = BLOCKING_ACCESS
               then dispatch_events dmax g (sub_block g op row_start row_end col_start col_end
                                  src_buf src_buf_ld blk_r blk_c)
               else []))"
proof -
  let ?d = "blk_r * c_blocks g + blk_c"
  let ?rs = "max (r_displs g ! nat blk_r) row_start"
  let ?re = "min (r_displs g ! nat (blk_r + 1) - 1) row_end"
  let ?cs = "max (c_displs g ! nat blk_c) col_start"
  let ?ce = "min (c_displs g ! nat (blk_c + 1) - 1) col_end"
  let ?ptr = "src_buf + wrap (wrap (wrap (wrap (?rs - row_start) * src_buf_ld)
                                     + wrap (?cs - col_start)) * unit_size g)"
  let ?r = "\<lparr>req_op = op, req_row_start = ?rs, req_row_num = ?re - ?rs + 1,
            req_col_start = ?cs, req_col_num = ?ce - ?cs + 1,
            req_src_buf = ?ptr, req_src_buf_ld = src_buf_ld\<rparr>"
  from w have lr: "int (length (r_displs g)) = r_blocks g + 1"
    and lc: "int (length (c_displs g)) = c_blocks g + 1"
    and sr: "sorted_wrt (<) (r_displs g)" and sc: "sorted_wrt (<) (c_displs g)"
    and cs: "comm_size g = r_blocks g * c_blocks g"
    and lq: "int (length (req_vec g)) = comm_size g"
    by (simp_all add: wf_handle_def)
  have r_lt: "r_displs g ! nat blk_r < r_displs g ! nat (blk_r + 1)"
    using sr r lr by (intro displs_strict) simp_all
  have c_lt: "c_displs g ! nat blk_c < c_displs g ! nat (blk_c + 1)"
    using sc c lc by (intro displs_strict) simp_all
  have ne: "?rs \<le> ?re" "?cs \<le> ?ce"
    using r_lt c_lt rows cols by simp_all
  have gi: "getRectIntersection (r_displs g ! nat blk_r) (r_displs g ! nat (blk_r + 1) - 1)
              (c_displs g ! nat blk_c) (c_displs g ! nat (blk_c + 1) - 1)
              row_start row_end col_start col_end = (1, ?rs, ?re, ?cs, ?ce)"
    using ne by (simp add: getRectIntersection_def Let_def)
  have sb: "sub_block g op row_start row_end col_start col_end src_buf src_buf_ld blk_r blk_c
      = (?d, ?r)"
    by (simp add: sub_block_def gi)
  note d = rank_of_block [OF r c]
  from w have ic: "comm_size g \<le> 2147483647" by (simp add: wf_handle_def is_int_def)
  have r0: "0 \<le> r_displs g ! nat blk_r"
    using wf_r_displs_range(1) [OF w, of blk_r] r by simp
  have r1: "r_displs g ! nat (blk_r + 1) \<le> 2147483647"
    using wf_r_displs_range(2,3) [OF w, of "blk_r + 1"] r by simp
  have c0: "0 \<le> c_displs g ! nat blk_c"
    using wf_c_displs_range(1) [OF w, of blk_c] c by simp
  have c1: "c_displs g ! nat (blk_c + 1) \<le> 2147483647"
    using wf_c_displs_range(2,3) [OF w, of "blk_c + 1"] c by simp
  have wce: "wrap (c_displs g ! nat (blk_c + 1) - 1) = c_displs g ! nat (blk_c + 1) - 1"
    using c0 c1 c_lt by (intro wrap_nonneg) simp_all
  have "0 \<le> blk_r * c_blocks g" "blk_r * c_blocks g \<le> ?d" using r c by simp_all
  then have "wrap (blk_r * c_blocks g) = blk_r * c_blocks g"
    using d(2) cs ic by (intro wrap_nonneg) simp_all
  moreover have "wrap ?d = ?d"
    using d(1,2) cs ic by (intro wrap_nonneg) simp_all
  ultimately have wd: "wrap (wrap (blk_r * c_blocks g) + blk_c) = ?d" by simp
  have br: "0 \<le> ?rs" "?re \<le> 2147483646" using r0 r1 by simp_all
  have bc: "0 \<le> ?cs" "?ce \<le> 2147483646" using c0 c1 by simp_all
  have "wrap (?re - ?rs) = ?re - ?rs"
    using ne(1) br by (intro wrap_nonneg) linarith+
  moreover have "wrap (?re - ?rs + 1) = ?re - ?rs + 1"
    using ne(1) br by (intro wrap_nonneg) linarith+
  ultimately have wrn: "wrap (wrap (?re - ?rs) + 1) = ?re - ?rs + 1" by simp
  have "wrap (?ce - ?cs) = ?ce - ?cs"
    using ne(2) bc by (intro wrap_nonneg) linarith+
  moreover have "wrap (?ce - ?cs + 1) = ?ce - ?cs + 1"
    using ne(2) bc by (intro wrap_nonneg) linarith+
  ultimately have wcn: "wrap (wrap (?ce - ?cs) + 1) = ?ce - ?cs + 1" by simp
  have rc1: "rd (c_displs g) blk_c = Inr (c_displs g ! nat blk_c)"
    using c lc by (simp add: rd_in)
  have rc2: "rd (c_displs g) (blk_c + 1) = Inr (c_displs g ! nat (blk_c + 1))"
    using c lc by (simp add: rd_in)
  have rq: "rd q ?d = Inr (q ! nat ?d)"
    using d q lq cs by (simp add: rd_in)
  have "0 \<le> ?re - ?rs + 1" "0 \<le> ?ce - ?cs + 1" using ne by simp_all
  from updateBlockToProcess_total [OF w d(1) _ this, of dmax op ?rs ?cs ?ptr src_buf_ld] d(2) cs
  obtain u where u: "GTM_updateBlockToProcess dmax g ?d op ?rs (?re - ?rs + 1) ?cs (?ce - ?cs + 1)
      ?ptr src_buf_ld = Inr u"
    by auto
  then have de: "dispatch_events dmax g (?d, ?r) = [MPI_Win_lock ?d] @ u @ [MPI_Win_unlock ?d]"
    by (simp add: dispatch_events_def replay_events_def events_of_def)
  show ?thesis
    unfolding sb de
    by (simp add: updateBlock_body_def Let_def rc1 rc2 wce wd gi wrn wcn u rq push_req_def
        GTM_pushToReqVector_def)
qed

lemma length_push_req [simp]: "length (push_req q dr) = length q"
  by (simp add: push_req_def)

lemma updateBlock_cols_eq:
  assumes w: "wf_handle g" and q: "length q = length (req_vec g)"
    and r: "0 \<le> blk_r" "blk_r < r_blocks g"
    and rows: "r_displs g ! nat blk_r \<le> row_end" "row_start < r_displs g ! nat (blk_r + 1)"
      "row_start \<le> row_end"
    and cols: "col_start \<le> col_end"
    and range: "0 \<le> blk_c" "e_blk_c < c_blocks g"
      "\<forall>c\<in>{blk_c..e_blk_c}. c_displs g ! nat c \<le> col_end \<and> col_start < c_displs g ! nat (c + 1)"
    and ds: "dst_r_s = r_displs g ! nat blk_r" and de: "dst_r_e = r_displs g ! nat (blk_r + 1) - 1"
  shows "updateBlock_cols dmax op row_start row_end col_start col_end src_buf src_buf_ld mode
           blk_r dst_r_s dst_r_e e_blk_c blk_c (g\<lparr>req_vec := q\<rparr>, t) =
     Inr (g\<lparr>req_vec :=
              (if mode = BATCH_ACCESS
               then foldl push_req q
                      (map (sub_block g op row_start row_end col_start col_end
                              src_buf src_buf_ld blk_r) [blk_c..e_blk_c])
               else q)\<rparr>,
          t @ (if mode = BLOCKING_ACCESS
               then concat (map (dispatch_events dmax g)
                      (map (sub_block g op row_start row_end col_start col_end
                              src_buf src_buf_ld blk_r) [blk_c..e_blk_c]))
               else []))"
  using assms
proof (induction dmax op row_start row_end col_start col_end src_buf src_buf_ld mode
         blk_r dst_r_s dst_r_e e_blk_c blk_c "(g\<lparr>req_vec := q\<rparr>, t)"
       arbitrary: q t rule: updateBlock_cols.induct)
  case (1 dmax op row_start row_end col_start col_end src_buf src_buf_ld mode
         blk_r dst_r_s dst_r_e e_blk_c blk_c)
  note p = "1.prems"
  show ?case
  proof (cases "blk_c \<le> e_blk_c")
    case False
    then show ?thesis
      by (subst updateBlock_cols.simps) simp
  next
    case True
    let ?sb = "sub_block g op row_start row_end col_start col_end src_buf src_buf_ld blk_r blk_c"
    let ?q1 = "if mode = BATCH_ACCESS then push_req q ?sb else q"
    let ?t1 = "t @ (if mode = BLOCKING_ACCESS then dispatch_events dmax g ?sb else [])"
    have c: "c_displs g ! nat blk_c \<le> col_end" "col_start < c_displs g ! nat (blk_c + 1)"
      "blk_c < c_blocks g"
      using True p(9,10,11) by simp_all
    have b: "updateBlock_body dmax op row_start row_end col_start col_end src_buf src_buf_ld mode
           blk_r dst_r_s dst_r_e blk_c (g\<lparr>req_vec := q\<rparr>, t) = Inr (g\<lparr>req_vec := ?q1\<rparr>, ?t1)"
      unfolding p(12,13)
      by (rule updateBlock_body_eq [OF p(1,2,3,4) p(9) c(3) p(5,6,7) c(1,2) p(8)])
    have q1: "length ?q1 = length (req_vec g)" using p(2) by simp
    have rng: "\<forall>c\<in>{blk_c + 1..e_blk_c}. c_displs g ! nat c \<le> col_end \<and>
                  col_start < c_displs g ! nat (c + 1)"
      using p(11) by simp
    have IH: "updateBlock_cols dmax op row_start row_end col_start col_end src_buf src_buf_ld mode
           blk_r dst_r_s dst_r_e e_blk_c (blk_c + 1) (g\<lparr>req_vec := ?q1\<rparr>, ?t1) =
     Inr (g\<lparr>req_vec :=
              (if mode = BATCH_ACCESS
               then foldl push_req ?q1
                      (map (sub_block g op row_start row_end col_start col_end
                              src_buf src_buf_ld blk_r) [blk_c + 1..e_blk_c])
               else ?q1)\<rparr>,
          ?t1 @ (if mode = BLOCKING_ACCESS
               then concat (map (dispatch_events dmax g)
                      (map (sub_block g op row_start row_end col_start col_end
                              src_buf src_buf_ld blk_r) [blk_c + 1..e_blk_c]))
               else []))"
      using p(9) by (intro "1.hyps" [OF True b p(1) q1 p(3,4,5,6,7,8) _ p(10) rng p(12,13)]) simp
    have up: "[blk_c..e_blk_c] = blk_c # [blk_c + 1..e_blk_c]"
      using True by (simp add: upto_rec1)
    show ?thesis
      by (subst updateBlock_cols.simps) (simp only: True if_True b sum.case IH up, simp)
  qed
qed

lemma length_foldl_push_req [simp]: "length (foldl push_req q subs) = length q"
  by (induction subs arbitrary: q) simp_all

lemma updateBlock_row_eq:
  assumes w: "wf_handle g" and q: "length q = length (req_vec g)"
    and r: "0 \<le> blk_r" "blk_r < r_blocks g"
    and rows: "r_displs g ! nat blk_r \<le> row_end" "row_start < r_displs g ! nat (blk_r + 1)"
      "row_start \<le> row_end"
    and cols: "col_start \<le> col_end"
    and range: "0 \<le> s_blk_c" "e_blk_c < c_blocks g"
      "\<forall>c\<in>{s_blk_c..e_blk_c}. c_displs g ! nat c \<le> col_end \<and> col_start < c_displs g ! nat (c + 1)"
  shows "updateBlock_row dmax op row_start row_end col_start col_end src_buf src_buf_ld mode
           (Some s_blk_c, Some e_blk_c) blk_r (g\<lparr>req_vec := q\<rparr>, t) =
     Inr (g\<lparr>req_vec :=
              (if mode = BATCH_ACCESS
               then foldl push_req q
                      (map (sub_block g op row_start row_end col_start col_end
                              src_buf src_buf_ld blk_r) [s_blk_c..e_blk_c])
               else q)\<rparr>,
          t @ (if mode = BLOCKING_ACCESS
               then concat (map (dispatch_events dmax g)
                      (map (sub_block g op row_start row_end col_start col_end
                              src_buf src_buf_ld blk_r) [s_blk_c..e_blk_c]))
               else []))"
proof -
  from w have lr: "int (length (r_displs g)) = r_blocks g + 1"
    by (simp add: wf_handle_def)
  have r1: "rd (r_displs g) blk_r = Inr (r_displs g ! nat blk_r)"
    using r lr by (simp add: rd_in)
  have r2: "rd (r_displs g) (blk_r + 1) = Inr (r_displs g ! nat (blk_r + 1))"
    using r lr by (simp add: rd_in)
  have "0 \<le> r_displs g ! nat blk_r"
    using wf_r_displs_range(1) [OF w, of blk_r] r by simp
  moreover have "r_displs g ! nat (blk_r + 1) \<le> 2147483647"
    using wf_r_displs_range(2,3) [OF w, of "blk_r + 1"] r by simp
  moreover from w have "sorted_wrt (<) (r_displs g)" by (simp add: wf_handle_def)
  then have "r_displs g ! nat blk_r < r_displs g ! nat (blk_r + 1)"
    using r lr by (intro displs_strict) simp_all
  ultimately have wre: "wrap (r_displs g ! nat (blk_r + 1) - 1) = r_displs g ! nat (blk_r + 1) - 1"
    by (intro wrap_nonneg) simp_all
  show ?thesis
    by (simp add: updateBlock_row_def r1 r2 Let_def wre
        updateBlock_cols_eq [OF w q r rows cols range refl refl])
qed

lemma updateBlock_rows_eq:
  assumes w: "wf_handle g" and q: "length q = length (req_vec g)"
    and rrange: "0 \<le> blk_r" "e_blk_r < r_blocks g"
      "\<forall>r\<in>{blk_r..e_blk_r}. r_displs g ! nat r \<le> row_end \<and> row_start < r_displs g ! nat (r + 1)"
    and rows: "row_start \<le> row_end"
    and cols: "col_start \<le> col_end"
    and range: "0 \<le> s_blk_c" "e_blk_c < c_blocks g"
      "\<forall>c\<in>{s_blk_c..e_blk_c}. c_displs g ! nat c \<le> col_end \<and> col_start < c_displs g ! nat (c + 1)"
    and bc: "blk_c_range = (Some s_blk_c, Some e_blk_c)"
  shows "updateBlock_rows dmax op row_start row_end col_start col_end src_buf src_buf_ld mode
           blk_c_range e_blk_r blk_r (g\<lparr>req_vec := q\<rparr>, t) =
     Inr (g\<lparr>req_vec :=
              (if mode = BATCH_ACCESS
               then foldl push_req q
                      (concat (map (\<lambda>blk_r. map (sub_block g op row_start row_end col_start col_end
                              src_buf src_buf_ld blk_r) [s_blk_c..e_blk_c]) [blk_r..e_blk_r]))
               else q)\<rparr>,
          t @ (if mode = BLOCKING_ACCESS
               then concat (map (dispatch_events dmax g)
                      (concat (map (\<lambda>blk_r. map (sub_block g op row_start row_end col_start col_end
                              src_buf src_buf_ld blk_r) [s_blk_c..e_blk_c]) [blk_r..e_blk_r])))
               else []))"
  using assms
proof (induction dmax op row_start row_end col_start col_end src_buf src_buf_ld mode
         blk_c_range e_blk_r blk_r "(g\<lparr>req_vec := q\<rparr>, t)"
       arbitrary: q t rule: updateBlock_rows.induct)
  case (1 dmax op row_start row_end col_start col_end src_buf src_buf_ld mode
         blk_c_range e_blk_r blk_r)
  note p = "1.prems"
  let ?row = "\<lambda>blk_r. map (sub_block g op row_start row_end col_start col_end
                              src_buf src_buf_ld blk_r) [s_blk_c..e_blk_c]"
  show ?case
  proof (cases "blk_r \<le> e_blk_r")
    case False
    then show ?thesis
      by (subst updateBlock_rows.simps) simp
  next
    case True
    let ?q1 = "if mode = BATCH_ACCESS then foldl push_req q (?row blk_r) else q"
    let ?t1 = "t @ (if mode = BLOCKING_ACCESS
                    then concat (map (dispatch_events dmax g) (?row blk_r)) else [])"
    have r: "r_displs g ! nat blk_r \<le> row_end" "row_start < r_displs g ! nat (blk_r + 1)"
      "blk_r < r_blocks g"
      using True p(3,4,5) by simp_all
    have b: "updateBlock_row dmax op row_start row_end col_start col_end src_buf src_buf_ld mode
           blk_c_range blk_r (g\<lparr>req_vec := q\<rparr>, t) = Inr (g\<lparr>req_vec := ?q1\<rparr>, ?t1)"
      unfolding p(11)
      by (rule updateBlock_row_eq [OF p(1,2,3) r(3) r(1,2) p(6,7,8,9,10)])
    have q1: "length ?q1 = length (req_vec g)" using p(2) by simp
    have rng: "\<forall>r\<in>{blk_r + 1..e_blk_r}. r_displs g ! nat r \<le> row_end \<and>
                  row_start < r_displs g ! nat (r + 1)"
      using p(5) by simp
    have IH: "updateBlock_rows dmax op row_start row_end col_start col_end src_buf src_buf_ld mode
           blk_c_range e_blk_r (blk_r + 1) (g\<lparr>req_vec := ?q1\<rparr>, ?t1) =
     Inr (g\<lparr>req_vec :=
              (if mode = BATCH_ACCESS
               then foldl push_req ?q1 (concat (map ?row [blk_r + 1..e_blk_r]))
               else ?q1)\<rparr>,
          ?t1 @ (if mode = BLOCKING_ACCESS
               then concat (map (dispatch_events dmax g) (concat (map ?row [blk_r + 1..e_blk_r])))
               else []))"
      using p(3) by (intro "1.hyps" [OF True b p(1) q1 _ p(4) rng p(6,7,8,9,10,11)]) simp
    have up: "[blk_r..e_blk_r] = blk_r # [blk_r + 1..e_blk_r]"
      using True by (simp add: upto_rec1)
    show ?thesis
      by (subst updateBlock_rows.simps) (simp only: True if_True b sum.case IH up, simp)
  qed
qed

lemma in_block_range:
  assumes s: "sorted_wrt (<) displs" and l: "int (length displs) = n + 1"
    and b: "0 \<le> s" "s < n" "0 \<le> e" "e < n" "in_block displs s x_start" "in_block displs e x_end"
    and x: "x_start \<le> x_end"
  shows "s \<le> e" "\<forall>j\<in>{s..e}. displs ! nat j \<le> x_end \<and> x_start < displs ! nat (j + 1)"
proof -
  show "s \<le> e"
  proof (rule ccontr)
    assume "\<not> s \<le> e"
    then have "displs ! nat (e + 1) \<le> displs ! nat s"
      using s l b by (intro displs_mono) simp_all
    with b x show False by (simp add: in_block_def)
  qed
  show "\<forall>j\<in>{s..e}. displs ! nat j \<le> x_end \<and> x_start < displs ! nat (j + 1)"
  proof
    fix j assume j: "j \<in> {s..e}"
    have "displs ! nat j \<le> displs ! nat e"
      using s l b j by (intro displs_mono) simp_all
    moreover have "displs ! nat (s + 1) \<le> displs ! nat (j + 1)"
      using s l b j by (intro displs_mono) simp_all
    ultimately show "displs ! nat j \<le> x_end \<and> x_start < displs ! nat (j + 1)"
      using b by (simp add: in_block_def)
  qed
qed

lemma concat_map_product:
  "concat (map (\<lambda>x. map (f x) ys) xs) = map (\<lambda>(x, y). f x y) (List.product xs ys)"
  by (induction xs) simp_all

text \<open>The block ranges of a rectangle inside the matrix.\<close>

lemma block_ranges:
  assumes w: "wf_handle g" and v: "valid_rect g row_start row_num col_start col_num"
  obtains s_blk_r e_blk_r s_blk_c e_blk_c where
    "find_blk (r_displs g) (r_blocks g) row_start (row_start + row_num - 1) 0 (None, None)
       = Inr (Some s_blk_r, Some e_blk_r)"
    "find_blk (c_displs g) (c_blocks g) col_start (col_start + col_num - 1) 0 (None, None)
       = Inr (Some s_blk_c, Some e_blk_c)"
    "0 \<le> s_blk_r" "s_blk_r \<le> e_blk_r" "e_blk_r < r_blocks g"
    "0 \<le> s_blk_c" "s_blk_c \<le> e_blk_c" "e_blk_c < c_blocks g"
    "in_block (r_displs g) s_blk_r row_start"
    "in_block (r_displs g) e_blk_r (row_start + row_num - 1)"
    "in_block (c_displs g) s_blk_c col_start"
    "in_block (c_displs g) e_blk_c (col_start + col_num - 1)"
    "\<forall>r\<in>{s_blk_r..e_blk_r}. r_displs g ! nat r \<le> row_start + row_num - 1 \<and>
        row_start < r_displs g ! nat (r + 1)"
    "\<forall>c\<in>{s_blk_c..e_blk_c}. c_displs g ! nat c \<le> col_start + col_num - 1 \<and>
        col_start < c_displs g ! nat (c + 1)"
proof -
  from w have lr: "int (length (r_displs g)) = r_blocks g + 1"
    and lc: "int (length (c_displs g)) = c_blocks g + 1"
    and sr: "sorted_wrt (<) (r_displs g)" and sc: "sorted_wrt (<) (c_displs g)"
    and r0: "r_displs g ! 0 = 0" "r_displs g ! nat (r_blocks g) = nrows g" "0 < r_blocks g"
    and c0: "c_displs g ! 0 = 0" "c_displs g ! nat (c_blocks g) = ncols g" "0 < c_blocks g"
    by (simp_all add: wf_handle_def)
  from v have vr: "0 \<le> row_start" "row_start \<le> row_start + row_num - 1"
      "row_start + row_num - 1 < nrows g"
    and vc: "0 \<le> col_start" "col_start \<le> col_start + col_num - 1"
      "col_start + col_num - 1 < ncols g"
    by (simp_all add: valid_rect_def)
  from find_blk_eq [OF lr, of row_start "row_start + row_num - 1"] r0 vr
  obtain s_r e_r where fr:
    "find_blk (r_displs g) (r_blocks g) row_start (row_start + row_num - 1) 0 (None, None)
       = Inr (Some s_r, Some e_r)"
    "0 \<le> s_r" "s_r < r_blocks g" "in_block (r_displs g) s_r row_start"
    "0 \<le> e_r" "e_r < r_blocks g" "in_block (r_displs g) e_r (row_start + row_num - 1)"
    by auto
  from find_blk_eq [OF lc, of col_start "col_start + col_num - 1"] c0 vc
  obtain s_c e_c where fc:
    "find_blk (c_displs g) (c_blocks g) col_start (col_start + col_num - 1) 0 (None, None)
       = Inr (Some s_c, Some e_c)"
    "0 \<le> s_c" "s_c < c_blocks g" "in_block (c_displs g) s_c col_start"
    "0 \<le> e_c" "e_c < c_blocks g" "in_block (c_displs g) e_c (col_start + col_num - 1)"
    by auto
  note rr = in_block_range [OF sr lr fr(2,3,5,6,4,7) vr(2)]
  note cc = in_block_range [OF sc lc fc(2,3,5,6,4,7) vc(2)]
  show thesis
    by (rule that [OF fr(1) fc(1) fr(2) rr(1) fr(6) fc(2) cc(1) fc(6) fr(4,7) fc(4,7) rr(2) cc(2)])
qed

text \<open>
  Inside the matrix of a well-formed handle the end coordinates of lines 111, 112, 117
  and 118 are values of \<^verbatim>\<open>int\<close>.
\<close>

lemma valid_rect_ends:
  assumes w: "wf_handle g" and v: "valid_rect g row_start row_num col_start col_num"
  shows "wrap (row_start + row_num) = row_start + row_num"
    "wrap (col_start + col_num) = col_start + col_num"
    "wrap (row_start + row_num - 1) = row_start + row_num - 1"
    "wrap (col_start + col_num - 1) = col_start + col_num - 1"
proof -
  from w have n: "nrows g \<le> 2147483647" "ncols g \<le> 2147483647"
    by (simp_all add: wf_handle_def is_int_def)
  from v have b: "0 \<le> row_start" "0 \<le> col_start" "row_start + row_num \<le> nrows g"
    "col_start + col_num \<le> ncols g" "0 < row_num" "0 < col_num"
    by (simp_all add: valid_rect_def)
  show "wrap (row_start + row_num) = row_start + row_num"
    using n b by (intro wrap_nonneg) simp_all
  show "wrap (col_start + col_num) = col_start + col_num"
    using n b by (intro wrap_nonneg) simp_all
  show "wrap (row_start + row_num - 1) = row_start + row_num - 1"
    using n b by (intro wrap_nonneg) simp_all
  show "wrap (col_start + col_num - 1) = col_start + col_num - 1"
    using n b by (intro wrap_nonneg) simp_all
qed

lemma valid_rect_area:
  assumes "valid_rect g row_start row_num col_start col_num" "is_int (row_num * col_num)"
  shows "wrap (row_num * col_num) \<noteq> 0"
  using assms by (simp add: wrap_id valid_rect_def)

text \<open>When the 32-bit product of line 113 is 0 the function returns at once.\<close>

lemma updateBlock_zero_product:
  "wrap (row_num * col_num) = 0 \<Longrightarrow>
   GTM_updateBlock dmax g op row_start row_num col_start col_num src_buf src_buf_ld mode
     = Inr (g, [])"
  by (simp add: GTM_updateBlock_def)

lemma updateBlock_eq:
  assumes w: "wf_handle g" and v: "valid_rect g row_start row_num col_start col_num"
    and nz: "wrap (row_num * col_num) \<noteq> 0"
  shows "GTM_updateBlock dmax g op row_start row_num col_start col_num src_buf src_buf_ld mode =
    Inr (g\<lparr>req_vec :=
             (if mode = BATCH_ACCESS
              then foldl push_req (req_vec g)
                     (routed_blocks g op row_start row_num col_start col_num src_buf src_buf_ld)
              else req_vec g)\<rparr>,
         if mode = BLOCKING_ACCESS
         then concat (map (dispatch_events dmax g)
                (routed_blocks g op row_start row_num col_start col_num src_buf src_buf_ld))
         else [])"
proof -
  from block_ranges [OF w v]
  obtain s_blk_r e_blk_r s_blk_c e_blk_c where b:
    "find_blk (r_displs g) (r_blocks g) row_start (row_start + row_num - 1) 0 (None, None)
       = Inr (Some s_blk_r, Some e_blk_r)"
    "find_blk (c_displs g) (c_blocks g) col_start (col_start + col_num - 1) 0 (None, None)
       = Inr (Some s_blk_c, Some e_blk_c)"
    "0 \<le> s_blk_r" "s_blk_r \<le> e_blk_r" "e_blk_r < r_blocks g"
    "0 \<le> s_blk_c" "s_blk_c \<le> e_blk_c" "e_blk_c < c_blocks g"
    "\<forall>r\<in>{s_blk_r..e_blk_r}. r_displs g ! nat r \<le> row_start + row_num - 1 \<and>
        row_start < r_displs g ! nat (r + 1)"
    "\<forall>c\<in>{s_blk_c..e_blk_c}. c_displs g ! nat c \<le> col_start + col_num - 1 \<and>
        col_start < c_displs g ! nat (c + 1)"
    by metis
  note e = valid_rect_ends [OF w v]
  from v nz have vr: "row_start \<le> row_start + row_num - 1"
    and vc: "col_start \<le> col_start + col_num - 1"
    and chk: "\<not> (row_start < 0 \<or> col_start < 0 \<or> row_start + row_num > nrows g \<or>
                col_start + col_num > ncols g \<or> wrap (row_num * col_num) = 0)"
    by (auto simp: valid_rect_def)
  have rt: "routed_blocks g op row_start row_num col_start col_num src_buf src_buf_ld =
      concat (map (\<lambda>blk_r.
               map (sub_block g op row_start (row_start + row_num - 1) col_start
                      (col_start + col_num - 1) src_buf src_buf_ld blk_r)
                 [s_blk_c..e_blk_c]) [s_blk_r..e_blk_r])"
    by (simp add: routed_blocks_def b(1,2))
  have "updateBlock_rows dmax op row_start (row_start + row_num - 1) col_start
          (col_start + col_num - 1) src_buf src_buf_ld mode (Some s_blk_c, Some e_blk_c)
          e_blk_r s_blk_r (g\<lparr>req_vec := req_vec g\<rparr>, []) =
     Inr (g\<lparr>req_vec :=
             (if mode = BATCH_ACCESS
              then foldl push_req (req_vec g)
                     (routed_blocks g op row_start row_num col_start col_num src_buf src_buf_ld)
              else req_vec g)\<rparr>,
         [] @ (if mode = BLOCKING_ACCESS
         then concat (map (dispatch_events dmax g)
                (routed_blocks g op row_start row_num col_start col_num src_buf src_buf_ld))
         else []))"
    unfolding rt
    by (rule updateBlock_rows_eq [OF w refl b(3,5,9) vr vc b(6,8,10) refl])
  then show ?thesis
    unfolding GTM_updateBlock_def e if_not_P [OF chk]
    by (simp add: Let_def b(1,2))
qed

lemma sub_block_rank:
  "fst (sub_block g op row_start row_end col_start col_end src_buf src_buf_ld blk_r blk_c)
     = blk_r * c_blocks g + blk_c"
  by (simp add: sub_block_def getRectIntersection_def Let_def)

lemma sub_block_cells:
  "req_cells (snd (sub_block g op row_start row_end col_start col_end src_buf src_buf_ld blk_r blk_c))
     = ({r_displs g ! nat blk_r..<r_displs g ! nat (blk_r + 1)} \<inter> {row_start..row_end}) \<times>
       ({c_displs g ! nat blk_c..<c_displs g ! nat (blk_c + 1)} \<inter> {col_start..col_end})"
  by (auto simp: sub_block_def getRectIntersection_def Let_def req_cells_def rect_cells_def)

lemma block_exists_from:
  "xs ! a \<le> (x::int) \<Longrightarrow> x < xs ! (a + n) \<Longrightarrow>
     \<exists>j. a \<le> j \<and> j < a + n \<and> xs ! j \<le> x \<and> x < xs ! Suc j"
proof (induction n)
  case 0
  then show ?case by simp
next
  case (Suc n)
  show ?case
  proof (cases "x < xs ! (a + n)")
    case True
    with Suc obtain j where "a \<le> j" "j < a + n" "xs ! j \<le> x \<and> x < xs ! Suc j" by blast
    then show ?thesis by (intro exI [of _ j]) simp
  next
    case False
    with Suc.prems show ?thesis by (intro exI [of _ "a + n"]) simp
  qed
qed

lemma block_covers:
  fixes displs :: "int list"
  assumes "0 \<le> s" "s \<le> e" "displs ! nat s \<le> x" "x < displs ! nat (e + 1)"
  shows "\<exists>j\<in>{s..e}. x \<in> {displs ! nat j..<displs ! nat (j + 1)}"
proof -
  have "nat (e + 1) = nat s + nat (e + 1 - s)" using assms by simp
  with assms have "x < displs ! (nat s + nat (e + 1 - s))" by simp
  from block_exists_from [OF assms(3) this]
  obtain j where j: "nat s \<le> j" "j < nat s + nat (e + 1 - s)" "displs ! j \<le> x" "x < displs ! Suc j"
    by blast
  have "nat (int j + 1) = Suc j" by simp
  with j have "x \<in> {displs ! nat (int j)..<displs ! nat (int j + 1)}" by simp
  moreover have "int j \<in> {s..e}" using j assms by auto
  ultimately show ?thesis by blast
qed

lemma blocks_disjoint:
  fixes displs :: "int list"
  assumes s: "sorted_wrt (<) displs" and "0 \<le> i" "i < j" "j + 1 < int (length displs)"
  shows "{displs ! nat i..<displs ! nat (i + 1)} \<inter> {displs ! nat j..<displs ! nat (j + 1)} = {}"
proof -
  have "displs ! nat (i + 1) \<le> displs ! nat j"
    using assms by (intro displs_mono) simp_all
  then show ?thesis by auto
qed

lemma blocks_disjoint':
  fixes displs :: "int list"
  assumes s: "sorted_wrt (<) displs" and "0 \<le> i" "0 \<le> j" "i \<noteq> j"
    "i + 1 < int (length displs)" "j + 1 < int (length displs)"
  shows "{displs ! nat i..<displs ! nat (i + 1)} \<inter> {displs ! nat j..<displs ! nat (j + 1)} = {}"
proof (cases "i < j")
  case True
  then show ?thesis using assms by (intro blocks_disjoint) simp_all
next
  case False
  then have "j < i" using assms by simp
  then have "{displs ! nat j..<displs ! nat (j + 1)} \<inter> {displs ! nat i..<displs ! nat (i + 1)} = {}"
    using assms by (intro blocks_disjoint) simp_all
  then show ?thesis by blast
qed

lemma rank_inj:
  assumes "0 \<le> c" "c < C" "0 \<le> c'" "c' < C" "r * C + c = r' * C + (c'::int)"
  shows "r = r'" "c = c'"
proof -
  have "r = (r * C + c) div C" using assms(1,2) by simp
  also have "\<dots> = (r' * C + c') div C" by (simp only: assms(5))
  also have "\<dots> = r'" using assms(3,4) by simp
  finally show "r = r'" .
  with assms(5) show "c = c'" by simp
qed

lemma routed_blocks_partition:
  fixes g :: GTMatrix and op :: MPI_Op
    and row_start row_num col_start col_num src_buf src_buf_ld :: int
  assumes w: "wf_handle g" and v: "valid_rect g row_start row_num col_start col_num"
  defines "R \<equiv> routed_blocks g op row_start row_num col_start col_num src_buf src_buf_ld"
  shows "(\<Union>p\<in>set R. req_cells (snd p)) = rect_cells row_start row_num col_start col_num"
    and "distinct (map fst R)"
    and "\<forall>p\<in>set R. \<forall>q\<in>set R. fst p \<noteq> fst q \<longrightarrow> req_cells (snd p) \<inter> req_cells (snd q) = {}"
    and "\<forall>p\<in>set R. 0 \<le> fst p \<and> fst p < comm_size g \<and> req_cells (snd p) \<noteq> {} \<and>
            req_cells (snd p) \<subseteq> region_cells g (fst p)"
    and "R \<noteq> []"
proof -
  let ?re = "row_start + row_num - 1" and ?ce = "col_start + col_num - 1"
  let ?sub = "sub_block g op row_start ?re col_start ?ce src_buf src_buf_ld"
  from block_ranges [OF w v]
  obtain sr er sc ec where b:
    "find_blk (r_displs g) (r_blocks g) row_start ?re 0 (None, None) = Inr (Some sr, Some er)"
    "find_blk (c_displs g) (c_blocks g) col_start ?ce 0 (None, None) = Inr (Some sc, Some ec)"
    "0 \<le> sr" "sr \<le> er" "er < r_blocks g"
    "0 \<le> sc" "sc \<le> ec" "ec < c_blocks g"
    "in_block (r_displs g) sr row_start" "in_block (r_displs g) er ?re"
    "in_block (c_displs g) sc col_start" "in_block (c_displs g) ec ?ce"
    "\<forall>r\<in>{sr..er}. r_displs g ! nat r \<le> ?re \<and> row_start < r_displs g ! nat (r + 1)"
    "\<forall>c\<in>{sc..ec}. c_displs g ! nat c \<le> ?ce \<and> col_start < c_displs g ! nat (c + 1)"
    by metis
  from w have lr: "int (length (r_displs g)) = r_blocks g + 1"
    and lc: "int (length (c_displs g)) = c_blocks g + 1"
    and sor: "sorted_wrt (<) (r_displs g)" and soc: "sorted_wrt (<) (c_displs g)"
    and cs: "comm_size g = r_blocks g * c_blocks g"
    by (simp_all add: wf_handle_def)
  have R: "R = map (\<lambda>(r, c). ?sub r c) (List.product [sr..er] [sc..ec])"
    unfolding R_def by (simp add: routed_blocks_def b(1,2) concat_map_product)
  have setR: "set R = (\<lambda>(r, c). ?sub r c) ` ({sr..er} \<times> {sc..ec})"
    unfolding R by simp
  have rows: "{row_start..?re} = {row_start..<row_start + row_num}" by auto
  have cols: "{col_start..?ce} = {col_start..<col_start + col_num}" by auto

  show "R \<noteq> []" using b(4,7) setR by (metis (no_types, lifting) atLeastAtMost_iff
        empty_iff empty_set image_is_empty mem_Sigma_iff order_refl)

  show "(\<Union>p\<in>set R. req_cells (snd p)) = rect_cells row_start row_num col_start col_num"
  proof (intro equalityI subsetI)
    fix z assume "z \<in> (\<Union>p\<in>set R. req_cells (snd p))"
    then show "z \<in> rect_cells row_start row_num col_start col_num"
      unfolding setR by (auto simp: sub_block_cells rect_cells_def)
  next
    fix z assume z: "z \<in> rect_cells row_start row_num col_start col_num"
    obtain x y where xy: "z = (x, y)" by (cases z)
    with z have x: "row_start \<le> x" "x \<le> ?re" and y: "col_start \<le> y" "y \<le> ?ce"
      by (auto simp: rect_cells_def)
    have "r_displs g ! nat sr \<le> x" "x < r_displs g ! nat (er + 1)"
      using b(9,10) x by (simp_all add: in_block_def)
    from block_covers [OF b(3,4) this]
    obtain r where r: "r \<in> {sr..er}" "x \<in> {r_displs g ! nat r..<r_displs g ! nat (r + 1)}"
      by blast
    have "c_displs g ! nat sc \<le> y" "y < c_displs g ! nat (ec + 1)"
      using b(11,12) y by (simp_all add: in_block_def)
    from block_covers [OF b(6,7) this]
    obtain c where c: "c \<in> {sc..ec}" "y \<in> {c_displs g ! nat c..<c_displs g ! nat (c + 1)}"
      by blast
    have "z \<in> req_cells (snd (?sub r c))"
      using r c x y unfolding xy sub_block_cells by simp
    moreover have "?sub r c \<in> set R" using r(1) c(1) unfolding setR by blast
    ultimately show "z \<in> (\<Union>p\<in>set R. req_cells (snd p))" by blast
  qed

  have "inj_on (\<lambda>(r, c). r * c_blocks g + c) ({sr..er} \<times> {sc..ec})"
  proof (rule inj_onI, clarify)
    fix r c r' c'
    assume "r \<in> {sr..er}" "c \<in> {sc..ec}" "r' \<in> {sr..er}" "c' \<in> {sc..ec}"
      and e: "r * c_blocks g + c = r' * c_blocks g + c'"
    then have "0 \<le> c" "c < c_blocks g" "0 \<le> c'" "c' < c_blocks g"
      using b(6,8) by simp_all
    from rank_inj [OF this e] show "r = r' \<and> c = c'" by simp
  qed
  moreover have "map fst R = map (\<lambda>(r, c). r * c_blocks g + c) (List.product [sr..er] [sc..ec])"
    unfolding R by (simp add: sub_block_rank split_def)
  ultimately show "distinct (map fst R)"
    by (simp add: distinct_map distinct_product)

  show "\<forall>p\<in>set R. \<forall>q\<in>set R. fst p \<noteq> fst q \<longrightarrow> req_cells (snd p) \<inter> req_cells (snd q) = {}"
  proof (intro ballI impI)
    fix p q assume "p \<in> set R" "q \<in> set R" and ne: "fst p \<noteq> fst q"
    from \<open>p \<in> set R\<close> obtain r c where p: "p = ?sub r c" "r \<in> {sr..er}" "c \<in> {sc..ec}"
      unfolding setR by auto
    from \<open>q \<in> set R\<close> obtain r' c' where q: "q = ?sub r' c'" "r' \<in> {sr..er}" "c' \<in> {sc..ec}"
      unfolding setR by auto
    from ne have "r \<noteq> r' \<or> c \<noteq> c'" unfolding p(1) q(1) by auto
    then show "req_cells (snd p) \<inter> req_cells (snd q) = {}"
    proof
      assume "r \<noteq> r'"
      then have "{r_displs g ! nat r..<r_displs g ! nat (r + 1)} \<inter>
                 {r_displs g ! nat r'..<r_displs g ! nat (r' + 1)} = {}"
        using p(2) q(2) b(3,5) lr by (intro blocks_disjoint' [OF sor]) simp_all
      then show ?thesis unfolding p(1) q(1) sub_block_cells by blast
    next
      assume "c \<noteq> c'"
      then have "{c_displs g ! nat c..<c_displs g ! nat (c + 1)} \<inter>
                 {c_displs g ! nat c'..<c_displs g ! nat (c' + 1)} = {}"
        using p(3) q(3) b(6,8) lc by (intro blocks_disjoint' [OF soc]) simp_all
      then show ?thesis unfolding p(1) q(1) sub_block_cells by blast
    qed
  qed

  show "\<forall>p\<in>set R. 0 \<le> fst p \<and> fst p < comm_size g \<and> req_cells (snd p) \<noteq> {} \<and>
            req_cells (snd p) \<subseteq> region_cells g (fst p)"
  proof
    fix p assume "p \<in> set R"
    then obtain r c where p: "p = ?sub r c" "r \<in> {sr..er}" "c \<in> {sc..ec}"
      unfolding setR by auto
    then have rc: "0 \<le> r" "r < r_blocks g" "0 \<le> c" "c < c_blocks g"
      using b(3,5,6,8) by simp_all
    note d = rank_of_block [OF rc]
    have reg: "region_cells g (r * c_blocks g + c) =
        {r_displs g ! nat r..<r_displs g ! nat (r + 1)} \<times>
        {c_displs g ! nat c..<c_displs g ! nat (c + 1)}"
      unfolding region_cells_def region_row_start_def region_row_end_def
          region_col_start_def region_col_end_def d(3,4) by (rule refl)
    have r_lt: "r_displs g ! nat r < r_displs g ! nat (r + 1)"
      using sor rc lr by (intro displs_strict) simp_all
    have c_lt: "c_displs g ! nat c < c_displs g ! nat (c + 1)"
      using soc rc lc by (intro displs_strict) simp_all
    from b(13) p(2) have rr: "r_displs g ! nat r \<le> ?re" "row_start < r_displs g ! nat (r + 1)"
      by simp_all
    from b(14) p(3) have cc: "c_displs g ! nat c \<le> ?ce" "col_start < c_displs g ! nat (c + 1)"
      by simp_all
    from v have vv: "row_start \<le> ?re" "col_start \<le> ?ce" by (simp_all add: valid_rect_def)
    have "(max (r_displs g ! nat r) row_start, max (c_displs g ! nat c) col_start)
            \<in> req_cells (snd (?sub r c))"
      unfolding sub_block_cells using r_lt c_lt rr cc vv by simp
    then have "req_cells (snd (?sub r c)) \<noteq> {}" by blast
    moreover have "req_cells (snd (?sub r c)) \<subseteq> region_cells g (r * c_blocks g + c)"
      unfolding reg sub_block_cells by blast
    ultimately show "0 \<le> fst p \<and> fst p < comm_size g \<and> req_cells (snd p) \<noteq> {} \<and>
            req_cells (snd p) \<subseteq> region_cells g (fst p)"
      unfolding p(1) sub_block_rank using d(1,2) cs by simp
  qed
qed

lemma example_fields:
  "nrows example_handle = 10" "ncols example_handle = 10" "unit_size example_handle = 8"
  "comm_size example_handle = 16" "r_blocks example_handle = 4" "c_blocks example_handle = 4"
  "r_displs example_handle = [0, 1, 4, 6, 10]" "c_displs example_handle = [0, 2, 5, 7, 10]"
  "ld_local example_handle = 3"
  "req_vec example_handle = [[], [], [], [], [], [], [], [], [], [], [], [], [], [], [], []]"
  by (simp_all add: example_handle_def)

lemma example_find_blk:
  "find_blk [0, 1, 4, 6, 10] 4 0 2 0 (None, None) = Inr (Some 0, Some 1)"
  "find_blk [0, 2, 5, 7, 10] 4 1 5 0 (None, None) = Inr (Some 0, Some 2)"
  by (simp_all add: find_blk.simps find_blk_step_def in_blk_def rd_def)

lemma example_routed:
  "routed_blocks example_handle MPI_SUM 0 3 1 5 1000 5 =
    [(0, \<lparr>req_op = MPI_SUM, req_row_start = 0, req_row_num = 1, req_col_start = 1,
          req_col_num = 1, req_src_buf = 1000, req_src_buf_ld = 5\<rparr>),
     (1, \<lparr>req_op = MPI_SUM, req_row_start = 0, req_row_num = 1, req_col_start = 2,
          req_col_num = 3, req_src_buf = 1008, req_src_buf_ld = 5\<rparr>),
     (2, \<lparr>req_op = MPI_SUM, req_row_start = 0, req_row_num = 1, req_col_start = 5,
          req_col_num = 1, req_src_buf = 1032, req_src_buf_ld = 5\<rparr>),
     (4, \<lparr>req_op = MPI_SUM, req_row_start = 1, req_row_num = 2, req_col_start = 1,
          req_col_num = 1, req_src_buf = 1040, req_src_buf_ld = 5\<rparr>),
     (5, \<lparr>req_op = MPI_SUM, req_row_start = 1, req_row_num = 2, req_col_start = 2,
          req_col_num = 3, req_src_buf = 1048, req_src_buf_ld = 5\<rparr>),
     (6, \<lparr>req_op = MPI_SUM, req_row_start = 1, req_row_num = 2, req_col_start = 5,
          req_col_num = 1, req_src_buf = 1072, req_src_buf_ld = 5\<rparr>)]"
  by (simp add: routed_blocks_def example_fields example_find_blk upto_rec1 sub_block_def
      getRectIntersection_def) (simp add: wrap_def)

lemma foldl_push_req_nth:
  assumes "\<forall>p\<in>set R. 0 \<le> fst p \<and> nat (fst p) < length q" "0 \<le> d" "nat d < length q"
  shows "foldl push_req q R ! nat d = q ! nat d @ map snd (filter (\<lambda>p. fst p = d) R)"
  using assms
proof (induction R arbitrary: q)
  case Nil
  show ?case by simp
next
  case (Cons p R)
  have "foldl push_req (push_req q p) R ! nat d =
          push_req q p ! nat d @ map snd (filter (\<lambda>p. fst p = d) R)"
    using Cons.prems by (intro Cons.IH) simp_all
  moreover have "push_req q p ! nat d = (if fst p = d then q ! nat d @ [snd p] else q ! nat d)"
    using Cons.prems by (auto simp: push_req_def nth_list_update nat_eq_iff)
  ultimately show ?case by simp
qed

lemma wf_handle_flag [simp]:
  "wf_handle (g\<lparr>is_batch_updating := b\<rparr>) = wf_handle g"
  by (simp add: wf_handle_def)

lemma valid_rect_flag [simp]:
  "valid_rect (g\<lparr>is_batch_updating := b\<rparr>) = valid_rect g"
  by (intro ext) (simp add: valid_rect_def)

lemma sub_block_flag [simp]:
  "sub_block (g\<lparr>is_batch_updating := b\<rparr>) = sub_block g"
  by (intro ext) (simp add: sub_block_def)

lemma routed_blocks_flag [simp]:
  "routed_blocks (g\<lparr>is_batch_updating := b\<rparr>) = routed_blocks g"
  unfolding routed_blocks_def sub_block_flag by simp

lemma valid_rect_example: "valid_rect example_handle 0 3 1 5"
  by (simp add: valid_rect_def example_fields)

lemma example_pushed:
  "foldl push_req (req_vec example_handle) (routed_blocks example_handle MPI_SUM 0 3 1 5 1000 5) =
    [[\<lparr>req_op = MPI_SUM, req_row_start = 0, req_row_num = 1, req_col_start = 1,
          req_col_num = 1, req_src_buf = 1000, req_src_buf_ld = 5\<rparr>],
     [\<lparr>req_op = MPI_SUM, req_row_start = 0, req_row_num = 1, req_col_start = 2,
          req_col_num = 3, req_src_buf = 1008, req_src_buf_ld = 5\<rparr>],
     [\<lparr>req_op = MPI_SUM, req_row_start = 0, req_row_num = 1, req_col_start = 5,
          req_col_num = 1, req_src_buf = 1032, req_src_buf_ld = 5\<rparr>],
     [],
     [\<lparr>req_op = MPI_SUM, req_row_start = 1, req_row_num = 2, req_col_start = 1,
          req_col_num = 1, req_src_buf = 1040, req_src_buf_ld = 5\<rparr>],
     [\<lparr>req_op = MPI_SUM, req_row_start = 1, req_row_num = 2, req_col_start = 2,
          req_col_num = 3, req_src_buf = 1048, req_src_buf_ld = 5\<rparr>],
     [\<lparr>req_op = MPI_SUM, req_row_start = 1, req_row_num = 2, req_col_start = 5,
          req_col_num = 1, req_src_buf = 1072, req_src_buf_ld = 5\<rparr>],
     [], [], [], [], [], [], [], [], []]"
  by (simp add: example_routed example_fields push_req_def numeral_eq_Suc)

lemma big_fields:
  "nrows big_handle = 65536" "ncols big_handle = 65536"
  "req_vec big_handle = [[]]"
  by (simp_all add: big_handle_def)

lemma valid_rect_big: "valid_rect big_handle 0 65536 0 65536"
  by (simp add: valid_rect_def big_fields)

lemma big_product_wraps: "wrap (65536 * 65536) = 0"
  by (simp add: wrap_def)

text \<open>
  Claim C1, as stated: for every non-empty rectangle inside the matrix the pairs that
  the router produces partition the rectangle. The whole matrix of \<open>big_handle\<close> has
  \<open>2^32\<close> cells: the 32-bit product of line 113 is 0, and \<^verbatim>\<open>GTM_updateBlock\<close> returns
  in both access modes with nothing queued and no MPI call, although the rectangle has
  cells.
\<close>

theorem updateBlock_wrapped_area_not_tiled:
  "wf_handle big_handle \<and> valid_rect big_handle 0 65536 0 65536 \<and>
   GTM_updateBlock 16 big_handle MPI_SUM 0 65536 0 65536 1000 65536 BATCH_ACCESS
     = Inr (big_handle, []) \<and>
   GTM_updateBlock 16 big_handle MPI_SUM 0 65536 0 65536 1000 65536 BLOCKING_ACCESS
     = Inr (big_handle, []) \<and>
   (0, 0) \<in> rect_cells 0 65536 0 65536"
  using wf_big valid_rect_big
  by (simp add: updateBlock_zero_product [OF big_product_wraps] rect_cells_def)

text \<open>
  Claim C1, amended. For a rectangle with positive extents inside the matrix of a
  well-formed handle, whose number of cells \<open>row_num * col_num\<close> is a value of
  \<^verbatim>\<open>int\<close>, \<^verbatim>\<open>GTM_updateBlock\<close> produces the pairs of \<open>routed_blocks\<close>: in batch mode
  it appends each entry to the request vector of its rank, in blocking mode it issues
  for each pair, in order, a lock, the returning call of \<^verbatim>\<open>GTM_updateBlockToProcess\<close>
  and an unlock. The cells of the entries together are the cells of the rectangle; no
  rank occurs twice; the entries of two ranks share no cell; every entry is not empty
  and lies inside the region of its rank, a rank of the group.
\<close>

theorem updateBlock_tiles_rectangle:
  assumes "wf_handle g" "valid_rect g row_start row_num col_start col_num"
    and "is_int (row_num * col_num)"
  shows "let R = routed_blocks g op row_start row_num col_start col_num src_buf src_buf_ld in
     GTM_updateBlock dmax g op row_start row_num col_start col_num src_buf src_buf_ld BATCH_ACCESS
       = Inr (g\<lparr>req_vec := foldl push_req (req_vec g) R\<rparr>, []) \<and>
     GTM_updateBlock dmax g op row_start row_num col_start col_num src_buf src_buf_ld BLOCKING_ACCESS
       = Inr (g, concat (map (dispatch_events dmax g) R)) \<and>
     (\<forall>p\<in>set R. GTM_updateBlockToProcess dmax g (fst p) (req_op (snd p))
                    (req_row_start (snd p)) (req_row_num (snd p))
                    (req_col_start (snd p)) (req_col_num (snd p))
                    (req_src_buf (snd p)) (req_src_buf_ld (snd p))
                  = Inr (replay_events dmax g (fst p) (snd p))) \<and>
     (\<Union>p\<in>set R. req_cells (snd p)) = rect_cells row_start row_num col_start col_num \<and>
     distinct (map fst R) \<and>
     (\<forall>p\<in>set R. \<forall>q\<in>set R. fst p \<noteq> fst q \<longrightarrow> req_cells (snd p) \<inter> req_cells (snd q) = {}) \<and>
     (\<forall>p\<in>set R. 0 \<le> fst p \<and> fst p < comm_size g \<and> req_cells (snd p) \<noteq> {} \<and>
                 req_cells (snd p) \<subseteq> region_cells g (fst p))"
proof -
  let ?R = "routed_blocks g op row_start row_num col_start col_num src_buf src_buf_ld"
  note part = routed_blocks_partition [OF assms(1,2), of op src_buf src_buf_ld]
  note nz = valid_rect_area [OF assms(2,3)]
  have utp: "GTM_updateBlockToProcess dmax g (fst p) (req_op (snd p))
                    (req_row_start (snd p)) (req_row_num (snd p))
                    (req_col_start (snd p)) (req_col_num (snd p))
                    (req_src_buf (snd p)) (req_src_buf_ld (snd p))
                  = Inr (replay_events dmax g (fst p) (snd p))" if "p \<in> set ?R" for p
  proof -
    from part(4) that have d: "0 \<le> fst p" "fst p < comm_size g" and ne: "req_cells (snd p) \<noteq> {}"
      by blast+
    from ne have "0 \<le> req_row_num (snd p)" "0 \<le> req_col_num (snd p)"
      by (auto simp: req_cells_def rect_cells_def)
    from updateBlockToProcess_total [OF assms(1) d this]
    obtain u where "GTM_updateBlockToProcess dmax g (fst p) (req_op (snd p))
                    (req_row_start (snd p)) (req_row_num (snd p))
                    (req_col_start (snd p)) (req_col_num (snd p))
                    (req_src_buf (snd p)) (req_src_buf_ld (snd p)) = Inr u"
      by blast
    then show ?thesis by (simp add: replay_events_def events_of_def)
  qed
  show ?thesis
    unfolding Let_def
    using part(1,2,3,4) utp by (simp add: updateBlock_eq [OF assms(1,2) nz])
qed

theorem updateBlock_tiles_rectangle_witness:
  "wf_handle example_handle \<and> valid_rect example_handle 0 3 1 5 \<and> is_int (3 * 5) \<and>
   GTM_updateBlock 16 example_handle MPI_SUM 0 3 1 5 1000 5 BATCH_ACCESS =
     Inr (example_handle\<lparr>req_vec :=
       [[\<lparr>req_op = MPI_SUM, req_row_start = 0, req_row_num = 1, req_col_start = 1,
          req_col_num = 1, req_src_buf = 1000, req_src_buf_ld = 5\<rparr>],
        [\<lparr>req_op = MPI_SUM, req_row_start = 0, req_row_num = 1, req_col_start = 2,
          req_col_num = 3, req_src_buf = 1008, req_src_buf_ld = 5\<rparr>],
        [\<lparr>req_op = MPI_SUM, req_row_start = 0, req_row_num = 1, req_col_start = 5,
          req_col_num = 1, req_src_buf = 1032, req_src_buf_ld = 5\<rparr>],
        [],
        [\<lparr>req_op = MPI_SUM, req_row_start = 1, req_row_num = 2, req_col_start = 1,
          req_col_num = 1, req_src_buf = 1040, req_src_buf_ld = 5\<rparr>],
        [\<lparr>req_op = MPI_SUM, req_row_start = 1, req_row_num = 2, req_col_start = 2,
          req_col_num = 3, req_src_buf = 1048, req_src_buf_ld = 5\<rparr>],
        [\<lparr>req_op = MPI_SUM, req_row_start = 1, req_row_num = 2, req_col_start = 5,
          req_col_num = 1, req_src_buf = 1072, req_src_buf_ld = 5\<rparr>],
        [], [], [], [], [], [], [], [], []]\<rparr>, []) \<and>
   map fst (routed_blocks example_handle MPI_SUM 0 3 1 5 1000 5) = [0, 1, 2, 4, 5, 6] \<and>
   (\<Union>p\<in>set (routed_blocks example_handle MPI_SUM 0 3 1 5 1000 5). req_cells (snd p))
     = rect_cells 0 3 1 5"
proof -
  have i: "is_int (3 * 5)" by (simp add: is_int_def)
  from updateBlock_tiles_rectangle [OF wf_example valid_rect_example i, where dmax = 16
      and op = MPI_SUM and src_buf = 1000 and src_buf_ld = 5]
  show ?thesis
    unfolding Let_def example_pushed
    using wf_example valid_rect_example i by (simp add: example_routed)
qed

text \<open>
  Claim C8. On a well-formed handle (displacement tables strictly increasing from 0 to
  the dimension) and a rectangle with positive extents inside the matrix, the loops of
  lines 119 to 132 assign all four block indices, \<^verbatim>\<open>getRectIntersection\<close> reports a
  non-empty intersection for every block of the two ranges, and \<^verbatim>\<open>GTM_updateBlock\<close>
  returns in every access mode: the assertion of line 150 does not fail.
\<close>

theorem updateBlock_intersections_nonempty:
  assumes "wf_handle g" "valid_rect g row_start row_num col_start col_num"
  shows "\<exists>s_blk_r e_blk_r s_blk_c e_blk_c.
     find_blk (r_displs g) (r_blocks g) row_start (row_start + row_num - 1) 0 (None, None)
       = Inr (Some s_blk_r, Some e_blk_r) \<and>
     find_blk (c_displs g) (c_blocks g) col_start (col_start + col_num - 1) 0 (None, None)
       = Inr (Some s_blk_c, Some e_blk_c) \<and>
     (\<forall>blk_r\<in>{s_blk_r..e_blk_r}. \<forall>blk_c\<in>{s_blk_c..e_blk_c}.
        fst (getRectIntersection
               (r_displs g ! nat blk_r) (r_displs g ! nat (blk_r + 1) - 1)
               (c_displs g ! nat blk_c) (c_displs g ! nat (blk_c + 1) - 1)
               row_start (row_start + row_num - 1) col_start (col_start + col_num - 1)) = 1) \<and>
     (\<exists>res. GTM_updateBlock dmax g op row_start row_num col_start col_num src_buf src_buf_ld mode
              = Inr res)"
proof -
  from block_ranges [OF assms]
  obtain sr er sc ec where b:
    "find_blk (r_displs g) (r_blocks g) row_start (row_start + row_num - 1) 0 (None, None)
       = Inr (Some sr, Some er)"
    "find_blk (c_displs g) (c_blocks g) col_start (col_start + col_num - 1) 0 (None, None)
       = Inr (Some sc, Some ec)"
    "0 \<le> sr" "er < r_blocks g" "0 \<le> sc" "ec < c_blocks g"
    "\<forall>r\<in>{sr..er}. r_displs g ! nat r \<le> row_start + row_num - 1 \<and>
        row_start < r_displs g ! nat (r + 1)"
    "\<forall>c\<in>{sc..ec}. c_displs g ! nat c \<le> col_start + col_num - 1 \<and>
        col_start < c_displs g ! nat (c + 1)"
    by metis
  from assms(1) have lr: "int (length (r_displs g)) = r_blocks g + 1"
    and lc: "int (length (c_displs g)) = c_blocks g + 1"
    and sor: "sorted_wrt (<) (r_displs g)" and soc: "sorted_wrt (<) (c_displs g)"
    by (simp_all add: wf_handle_def)
  from assms(2) have vv: "row_start \<le> row_start + row_num - 1" "col_start \<le> col_start + col_num - 1"
    by (simp_all add: valid_rect_def)
  have ret: "\<exists>res. GTM_updateBlock dmax g op row_start row_num col_start col_num
                 src_buf src_buf_ld mode = Inr res"
  proof (cases "wrap (row_num * col_num) = 0")
    case True
    then show ?thesis by (simp add: updateBlock_zero_product)
  next
    case False
    show ?thesis by (simp add: updateBlock_eq [OF assms False])
  qed
  have "fst (getRectIntersection
               (r_displs g ! nat r) (r_displs g ! nat (r + 1) - 1)
               (c_displs g ! nat c) (c_displs g ! nat (c + 1) - 1)
               row_start (row_start + row_num - 1) col_start (col_start + col_num - 1)) = 1"
    if r: "r \<in> {sr..er}" and c: "c \<in> {sc..ec}" for r c
  proof -
    have "r_displs g ! nat r < r_displs g ! nat (r + 1)"
      using sor r b(3,4) lr by (intro displs_strict) simp_all
    moreover have "c_displs g ! nat c < c_displs g ! nat (c + 1)"
      using soc c b(5,6) lc by (intro displs_strict) simp_all
    ultimately show ?thesis
      using b(7,8) r c vv by (simp add: getRectIntersection_def Let_def)
  qed
  then show ?thesis
    using b(1,2) ret by simp
qed

theorem updateBlock_intersections_nonempty_witness:
  "wf_handle example_handle \<and> valid_rect example_handle 0 3 1 5 \<and>
   find_blk (r_displs example_handle) (r_blocks example_handle) 0 2 0 (None, None)
     = Inr (Some 0, Some 1) \<and>
   find_blk (c_displs example_handle) (c_blocks example_handle) 1 5 0 (None, None)
     = Inr (Some 0, Some 2) \<and>
   fst (getRectIntersection
          (r_displs example_handle ! nat 0) (r_displs example_handle ! nat (0 + 1) - 1)
          (c_displs example_handle ! nat 0) (c_displs example_handle ! nat (0 + 1) - 1)
          0 2 1 5) = 1 \<and>
   fst (getRectIntersection
          (r_displs example_handle ! nat 1) (r_displs example_handle ! nat (1 + 1) - 1)
          (c_displs example_handle ! nat 2) (c_displs example_handle ! nat (2 + 1) - 1)
          0 2 1 5) = 1 \<and>
   (\<exists>res. GTM_updateBlock 16 example_handle MPI_SUM 0 3 1 5 1000 5 BLOCKING_ACCESS = Inr res)"
proof -
  let ?I = "\<lambda>blk_r blk_c. fst (getRectIntersection
          (r_displs example_handle ! nat blk_r) (r_displs example_handle ! nat (blk_r + 1) - 1)
          (c_displs example_handle ! nat blk_c) (c_displs example_handle ! nat (blk_c + 1) - 1)
          0 (0 + 3 - 1) 1 (1 + 5 - 1))"
  from updateBlock_intersections_nonempty [OF wf_example valid_rect_example,
      where dmax = 16 and op = MPI_SUM and src_buf = 1000 and src_buf_ld = 5
        and mode = BLOCKING_ACCESS]
  obtain sr er sc ec where
    f: "find_blk (r_displs example_handle) (r_blocks example_handle) 0 (0 + 3 - 1) 0 (None, None)
          = Inr (Some sr, Some er)"
       "find_blk (c_displs example_handle) (c_blocks example_handle) 1 (1 + 5 - 1) 0 (None, None)
          = Inr (Some sc, Some ec)"
    and i: "\<forall>blk_r\<in>{sr..er}. \<forall>blk_c\<in>{sc..ec}. ?I blk_r blk_c = 1"
    and r: "\<exists>res. GTM_updateBlock 16 example_handle MPI_SUM 0 3 1 5 1000 5 BLOCKING_ACCESS = Inr res"
    by blast
  from f have e: "sr = 0" "er = 1" "sc = 0" "ec = 2"
    by (simp_all add: example_fields example_find_blk)
  have "?I 0 0 = 1" by (rule i [unfolded e, rule_format, of 0 0]) simp_all
  moreover have "?I 1 2 = 1" by (rule i [unfolded e, rule_format, of 1 2]) simp_all
  ultimately show ?thesis
    using r wf_example valid_rect_example
    by (simp add: example_fields example_find_blk)
qed

text \<open>
  Claim C5, as stated: a batch request with a valid rectangle is appended to the
  request queue of its destination, whatever the state of the epoch. For the whole
  matrix of \<open>big_handle\<close>, with \<open>2^32\<close> cells, the 32-bit product of line 113 is 0 and
  both batch entry points return with the one request vector as empty as it was.
\<close>

theorem batch_request_wrapped_area_dropped:
  "wf_handle big_handle \<and> valid_rect big_handle 0 65536 0 65536 \<and>
   GTM_addPutBlockRequest 16 (big_handle\<lparr>is_batch_updating := 1\<rparr>) 0 65536 0 65536 1000 65536
     = Inr (big_handle\<lparr>is_batch_updating := 1\<rparr>, []) \<and>
   GTM_addAccumulateBlockRequest 16 (big_handle\<lparr>is_batch_updating := 1\<rparr>)
       0 65536 0 65536 1000 65536
     = Inr (big_handle\<lparr>is_batch_updating := 1\<rparr>, []) \<and>
   req_vec (big_handle\<lparr>is_batch_updating := 1\<rparr>) = [[]]"
  using wf_big valid_rect_big
  by (simp add: GTM_addPutBlockRequest_def GTM_addAccumulateBlockRequest_def
      updateBlock_zero_product [OF big_product_wraps] big_fields)

text \<open>
  Claim C5, amended. \<^verbatim>\<open>GTM_addPutBlockRequest\<close> and \<^verbatim>\<open>GTM_addAccumulateBlockRequest\<close>
  with a rectangle of positive extents inside the matrix, whose number of cells
  \<open>row_num * col_num\<close> is a value of \<^verbatim>\<open>int\<close>, append the entries of the rectangle to the
  request vectors whatever the value \<open>b\<close> of \<^verbatim>\<open>is_batch_updating\<close>, which they leave
  as it is; at least one entry is appended, and the vector of each rank gets the
  entries routed to that rank at its end.
\<close>

theorem batch_requests_not_gated:
  assumes "wf_handle g" "valid_rect g row_start row_num col_start col_num"
    and "is_int (row_num * col_num)"
  shows "GTM_addPutBlockRequest dmax (g\<lparr>is_batch_updating := b\<rparr>)
           row_start row_num col_start col_num src_buf src_buf_ld
         = Inr (g\<lparr>is_batch_updating := b,
                  req_vec := foldl push_req (req_vec g)
                    (routed_blocks g MPI_REPLACE row_start row_num col_start col_num
                       src_buf src_buf_ld)\<rparr>, []) \<and>
       GTM_addAccumulateBlockRequest dmax (g\<lparr>is_batch_updating := b\<rparr>)
           row_start row_num col_start col_num src_buf src_buf_ld
         = Inr (g\<lparr>is_batch_updating := b,
                  req_vec := foldl push_req (req_vec g)
                    (routed_blocks g MPI_SUM row_start row_num col_start col_num
                       src_buf src_buf_ld)\<rparr>, []) \<and>
       (\<forall>op. routed_blocks g op row_start row_num col_start col_num src_buf src_buf_ld \<noteq> [] \<and>
          (\<forall>d. 0 \<le> d \<and> d < comm_size g \<longrightarrow>
             foldl push_req (req_vec g)
               (routed_blocks g op row_start row_num col_start col_num src_buf src_buf_ld) ! nat d
             = req_vec g ! nat d @
               map snd (filter (\<lambda>p. fst p = d)
                 (routed_blocks g op row_start row_num col_start col_num src_buf src_buf_ld))))"
proof -
  have w: "wf_handle (g\<lparr>is_batch_updating := b\<rparr>)"
    and v: "valid_rect (g\<lparr>is_batch_updating := b\<rparr>) row_start row_num col_start col_num"
    using assms by simp_all
  note nz = valid_rect_area [OF assms(2,3)]
  from assms(1) have lq: "int (length (req_vec g)) = comm_size g"
    by (simp add: wf_handle_def)
  have app: "foldl push_req (req_vec g)
               (routed_blocks g op row_start row_num col_start col_num src_buf src_buf_ld) ! nat d
             = req_vec g ! nat d @
               map snd (filter (\<lambda>p. fst p = d)
                 (routed_blocks g op row_start row_num col_start col_num src_buf src_buf_ld))"
    if d: "0 \<le> d" "d < comm_size g" for op d
  proof (rule foldl_push_req_nth)
    show "\<forall>p\<in>set (routed_blocks g op row_start row_num col_start col_num src_buf src_buf_ld).
            0 \<le> fst p \<and> nat (fst p) < length (req_vec g)"
      using routed_blocks_partition(4) [OF assms(1,2), of op src_buf src_buf_ld] lq
      by (auto simp: nat_less_iff)
    show "0 \<le> d" by (rule d)
    show "nat d < length (req_vec g)" using d lq by (simp add: nat_less_iff)
  qed
  show ?thesis
    using routed_blocks_partition(5) [OF assms(1,2)] app
    by (simp add: GTM_addPutBlockRequest_def GTM_addAccumulateBlockRequest_def
        updateBlock_eq [OF w v nz])
qed

theorem batch_requests_not_gated_witness:
  "wf_handle example_handle \<and> valid_rect example_handle 0 3 1 5 \<and> is_int (3 * 5) \<and>
   GTM_addAccumulateBlockRequest 16 (example_handle\<lparr>is_batch_updating := 0\<rparr>) 0 3 1 5 1000 5
     = Inr (example_handle\<lparr>is_batch_updating := 0,
              req_vec := foldl push_req (req_vec example_handle)
                (routed_blocks example_handle MPI_SUM 0 3 1 5 1000 5)\<rparr>, []) \<and>
   GTM_addAccumulateBlockRequest 16 (example_handle\<lparr>is_batch_updating := 1\<rparr>) 0 3 1 5 1000 5
     = Inr (example_handle\<lparr>is_batch_updating := 1,
              req_vec := foldl push_req (req_vec example_handle)
                (routed_blocks example_handle MPI_SUM 0 3 1 5 1000 5)\<rparr>, []) \<and>
   foldl push_req (req_vec example_handle)
       (routed_blocks example_handle MPI_SUM 0 3 1 5 1000 5) ! 5
     = [\<lparr>req_op = MPI_SUM, req_row_start = 1, req_row_num = 2, req_col_start = 2,
         req_col_num = 3, req_src_buf = 1048, req_src_buf_ld = 5\<rparr>]"
proof -
  have i: "is_int (3 * 5)" by (simp add: is_int_def)
  from batch_requests_not_gated [OF wf_example valid_rect_example i, where dmax = 16 and b = 0
      and src_buf = 1000 and src_buf_ld = 5]
    batch_requests_not_gated [OF wf_example valid_rect_example i, where dmax = 16 and b = 1
      and src_buf = 1000 and src_buf_ld = 5]
  show ?thesis
    using wf_example valid_rect_example i by (simp add: example_pushed)
qed

end
